theory Spec2Isabelle
  imports Main "HOL-Library.AList"
begin

section \<open>Python string helpers used by the checker\<close>

text \<open>
  Strings are lists of 8-bit characters, read as Latin-1 code points.
  \<open>isspace\<close> is Python's \<open>str.isspace\<close> on that range; it is also what
  \<open>\s\<close> matches in a \<open>str\<close> pattern, what \<open>str.strip()\<close> removes and what
  \<open>int()\<close> skips around a number.
\<close>

definition isspace :: "char \<Rightarrow> bool" where
  "isspace c = (of_char c \<in> {9, 10, 11, 12, 13, 28, 29, 30, 31, 32, 133, 160 :: nat})"

definition strip :: "string \<Rightarrow> string" where
  "strip s = rev (dropWhile isspace (rev (dropWhile isspace s)))"

text \<open>\<open>s.split(d)\<close> for a one-character separator: the empty string gives one empty field.\<close>

fun split :: "char \<Rightarrow> string \<Rightarrow> string list" where
  "split d [] = [[]]"
| "split d (c # cs) =
     (if c = d then [] # split d cs
      else (case split d cs of [] \<Rightarrow> [[c]] | w # ws \<Rightarrow> (c # w) # ws))"

definition lower_char :: "char \<Rightarrow> char" where
  "lower_char c =
     (let n = (of_char c :: nat) in if 65 \<le> n \<and> n \<le> 90 then char_of (n + 32) else c)"

definition digit_of :: "char \<Rightarrow> nat option" where
  "digit_of c =
     (let n = (of_char c :: nat) in if 48 \<le> n \<and> n \<le> 57 then Some (n - 48) else None)"

text \<open>
  The digits of a decimal literal after its first digit: single underscores are allowed
  between digits, as in \<open>int("1_000")\<close>.
\<close>

fun parse_digits :: "nat \<Rightarrow> string \<Rightarrow> nat option" where
  "parse_digits acc [] = Some acc"
| "parse_digits acc [c] =
     (case digit_of c of None \<Rightarrow> None | Some d \<Rightarrow> Some (acc * 10 + d))"
| "parse_digits acc (c # c' # cs) =
     (if c = CHR ''_''
      then (case digit_of c' of None \<Rightarrow> None | Some d \<Rightarrow> parse_digits (acc * 10 + d) cs)
      else (case digit_of c of None \<Rightarrow> None | Some d \<Rightarrow> parse_digits (acc * 10 + d) (c' # cs)))"

definition parse_unsigned :: "string \<Rightarrow> nat option" where
  "parse_unsigned s =
     (case s of [] \<Rightarrow> None
      | c # cs \<Rightarrow> (case digit_of c of None \<Rightarrow> None | Some d \<Rightarrow> parse_digits d cs))"

text \<open>
  Python's \<open>int(s)\<close> in base 10; \<open>None\<close> stands for the \<open>ValueError\<close>. \<open>int\<close> skips
  less white space around the number than \<open>strip\<close> removes: tab to carriage return and the
  space, and of the characters above 127 the two that \<open>isspace\<close> accepts; the separators
  28 to 31 are no white space for it. A literal of more than \<open>sys.int_max_str_digits\<close>
  digits, 4300 unless the interpreter is told otherwise, is refused.
\<close>

definition int_space :: "char \<Rightarrow> bool" where
  "int_space c = (of_char c \<in> {9, 10, 11, 12, 13, 32, 133, 160 :: nat})"

definition int_max_str_digits :: nat where
  "int_max_str_digits = 4300"

definition py_int :: "string \<Rightarrow> int option" where
  "py_int s =
     (case rev (dropWhile int_space (rev (dropWhile int_space s))) of
        [] \<Rightarrow> None
      | c # cs \<Rightarrow>
          if int_max_str_digits < length (filter (\<lambda>d. \<not> (digit_of d = None)) (c # cs)) then None
          else if c = CHR ''-'' then map_option (\<lambda>n. - int n) (parse_unsigned cs)
          else if c = CHR ''+'' then map_option int (parse_unsigned cs)
          else map_option int (parse_unsigned (c # cs)))"

text \<open>
  \<open>ConfigParser.BOOLEAN_STATES\<close>, looked up with the lower-cased value;
  \<open>None\<close> stands for the \<open>ValueError\<close> of \<open>getboolean\<close>.
\<close>

definition convert_to_boolean :: "string \<Rightarrow> bool option" where
  "convert_to_boolean v =
     (let l = map lower_char v in
      if l \<in> set [''1'', ''yes'', ''true'', ''on''] then Some True
      else if l \<in> set [''0'', ''no'', ''false'', ''off''] then Some False
      else None)"

text \<open>Python's \<open>a or b\<close> on optional strings: \<open>a\<close> when it is neither \<open>None\<close> nor empty.\<close>

definition py_or :: "string option \<Rightarrow> string option \<Rightarrow> string option" where
  "py_or a b = (case a of None \<Rightarrow> b | Some s \<Rightarrow> if s = [] then b else Some s)"

text \<open>Truthiness of an optional string: \<open>if rule.prefix:\<close>.\<close>

definition truthy :: "string option \<Rightarrow> bool" where
  "truthy a = (case a of None \<Rightarrow> False | Some s \<Rightarrow> s \<noteq> [])"

text \<open>Whether \<open>n\<close> occurs in \<open>m\<close> as a contiguous substring (\<open>n in m\<close>).\<close>

definition contains :: "string \<Rightarrow> string \<Rightarrow> bool" where
  "contains m n = list_ex (\<lambda>i. take (length n) (drop i m) = n) [0..<Suc (length m)]"


section \<open>The rule model\<close>

datatype pointer_field = PInt int | PBool bool

record Rule =
  name :: string
  kinds :: "string list option"
  visibility :: "string list option"
  types :: "string list option"
  pointer :: "pointer_field option"
  parent_match :: "string option"
  prefix :: "string option"
  suffix :: "string option"
  rule :: "string option"
  allow_rule :: "string option"

record RuleSet =
  rules :: "Rule list"
  placeholders :: "(string \<times> string) list"

text \<open>
  What \<open>BasicInterpolation\<close>, the interpolation of a default \<open>ConfigParser\<close>, raises when
  a value cannot be interpolated (a \<open>%\<close> that is followed by neither \<open>%\<close> nor \<open>(\<close>, a
  reference to an option that does not exist, references nested too deep), with the message.
\<close>

datatype interpolation_error =
    InterpolationSyntaxError string
  | InterpolationMissingOptionError string
  | InterpolationDepthError string

text \<open>
  Everything the program can raise. \<open>Exception\<close> and \<open>ValueError\<close> carry their message.
\<close>

datatype error =
    Exception string
  | ValueError string
  | InterpolationError interpolation_error
  | AssertionError
  | AttributeError
  | TypeError

text \<open>
  A configuration as the \<open>ConfigParser\<close> object answers for it: the sections in the order
  of \<open>config.sections()\<close>, each with the options that \<open>get\<close> and \<open>items\<close> see for it (its
  own and those of \<open>DEFAULT\<close>, names in lower case, in the order of \<open>items\<close>). An option
  comes with what reading it gives: the interpolated value, or the error that the
  interpolation of its value raises.
\<close>

type_synonym SectionProxy = "(string \<times> (interpolation_error + string)) list"
type_synonym ConfigParser = "(string \<times> SectionProxy) list"

text \<open>
  \<open>section.get(key)\<close>: \<open>None\<close> for an option that is not there, the value, or the raise of
  the interpolation.
\<close>

definition section_get :: "SectionProxy \<Rightarrow> string \<Rightarrow> error + string option" where
  "section_get sec key =
     (case map_of sec key of
        None \<Rightarrow> Inr None
      | Some (Inl e) \<Rightarrow> Inl (InterpolationError e)
      | Some (Inr v) \<Rightarrow> Inr (Some v))"

text \<open>
  \<open>config.items(section_name)\<close>: the options with their values, or the raise of the first
  option that cannot be interpolated.
\<close>

fun section_items :: "SectionProxy \<Rightarrow> error + (string \<times> string) list" where
  "section_items [] = Inr []"
| "section_items ((k, Inl e) # opts) = Inl (InterpolationError e)"
| "section_items ((k, Inr v) # opts) =
     (case section_items opts of Inl e \<Rightarrow> Inl e | Inr kvs \<Rightarrow> Inr ((k, v) # kvs))"

text \<open>One statement after the other: a raise ends the sequence.\<close>

definition and_then :: "error + 'a \<Rightarrow> ('a \<Rightarrow> error + 'b) \<Rightarrow> error + 'b" where
  "and_then m f = (case m of Inl e \<Rightarrow> Inl e | Inr x \<Rightarrow> f x)"

definition split_strip :: "string option \<Rightarrow> string list option" where
  "split_strip v = map_option (\<lambda>s. map strip (split CHR '','' s)) v"

text \<open>
  Lines 55-59: \<open>getint\<close> first, \<open>getboolean\<close> when that raises \<open>ValueError\<close>; a missing
  option gives \<open>None\<close> from \<open>getint\<close>. An interpolation error is no \<open>ValueError\<close> and goes
  through; the \<open>ValueError\<close> of \<open>getboolean\<close> is not caught either.
\<close>

definition get_pointer :: "SectionProxy \<Rightarrow> error + pointer_field option" where
  "get_pointer sec =
     (case section_get sec ''pointer'' of
        Inl e \<Rightarrow> Inl e
      | Inr None \<Rightarrow> Inr None
      | Inr (Some v) \<Rightarrow>
          (case py_int v of
             Some i \<Rightarrow> Inr (Some (PInt i))
           | None \<Rightarrow>
               (case convert_to_boolean v of
                  Some b \<Rightarrow> Inr (Some (PBool b))
                | None \<Rightarrow> Inl (ValueError (''Not a boolean: '' @ v)))))"

text \<open>
  The body of the loop of \<open>RuleSet.__init__\<close> for a section that is not \<open>placeholders\<close>:
  the options are read in the order of the source, then the two checks.
\<close>

definition load_section :: "string \<Rightarrow> SectionProxy \<Rightarrow> error + Rule" where
  "load_section section_name sec =
     and_then (section_get sec ''kind'') (\<lambda>kind_value.
     and_then (section_get sec ''type'') (\<lambda>type_value.
     and_then (section_get sec ''visibility'') (\<lambda>visibility_value.
     and_then (get_pointer sec) (\<lambda>ptr.
     and_then (section_get sec ''parent_match'') (\<lambda>pm.
     and_then (section_get sec ''prefix'') (\<lambda>pre.
     and_then (section_get sec ''suffix'') (\<lambda>suf.
     and_then (section_get sec ''rule'') (\<lambda>rl.
     and_then (section_get sec ''allow-rule'') (\<lambda>al.
       if rl = None \<and> al = None \<and> pre = None \<and> suf = None
       then Inl (Exception (''Section '' @ [CHR 0x27] @ section_name @ [CHR 0x27]
              @ '' does not have a '' @ [CHR 0x27] @ ''rule'' @ [CHR 0x27] @ '' or ''
              @ [CHR 0x27] @ ''allow-rule'' @ [CHR 0x27] @ '' member''))
       else if \<not> (rl = None) \<and> \<not> (al = None)
       then Inl (Exception (''Section '' @ [CHR 0x27] @ section_name @ [CHR 0x27]
              @ '' may not have both a '' @ [CHR 0x27] @ ''rule'' @ [CHR 0x27]
              @ '' and an '' @ [CHR 0x27] @ ''allow-rule''))
       else Inr \<lparr> name = section_name, kinds = split_strip kind_value,
                  visibility = split_strip visibility_value,
                  types = split_strip type_value, pointer = ptr, parent_match = pm,
                  prefix = pre, suffix = suf, rule = rl, allow_rule = al \<rparr>)))))))))"

text \<open>
  \<open>RuleSet.__init__\<close>: the sections in order; \<open>placeholders\<close> fills the placeholder table
  (keys prefixed with \<open>p:\<close>) and is no rule; the first raise ends the load.
\<close>

fun load :: "ConfigParser \<Rightarrow> RuleSet \<Rightarrow> error + RuleSet" where
  "load [] rs = Inr rs"
| "load ((section_name, sec) # rest) rs =
     (if section_name = ''placeholders''
      then (case section_items sec of
              Inl e \<Rightarrow> Inl e
            | Inr kvs \<Rightarrow> load rest (rs\<lparr>placeholders := map (\<lambda>(k, v). (''p:'' @ k, v)) kvs\<rparr>))
      else (case load_section section_name sec of
              Inl e \<Rightarrow> Inl e
            | Inr r \<Rightarrow> load rest (rs\<lparr>rules := rules rs @ [r]\<rparr>)))"

definition RuleSet_init :: "ConfigParser \<Rightarrow> error + RuleSet" where
  "RuleSet_init cfg = load cfg \<lparr> rules = [], placeholders = [] \<rparr>"


section \<open>What the checker reads from libclang\<close>

datatype CursorKind =
    PARM_DECL | VAR_DECL | FUNCTION_DECL | STRUCT_DECL | UNION_DECL | ENUM_DECL
  | TYPEDEF_DECL | FIELD_DECL | ENUM_CONSTANT_DECL | OTHER_DECL

datatype LinkageKind = INVALID | NO_LINKAGE | INTERNAL | UNIQUE_EXTERNAL | EXTERNAL

datatype TypeKind = RECORD | ENUM | FUNCTIONPROTO | OTHER_TYPE

text \<open>
  A type is a chain of pointer layers over a type that is no pointer; each layer has its
  spelling. \<open>Pointer\<close> is \<open>TypeKind.POINTER\<close>, its argument is \<open>get_pointee()\<close>.
\<close>

datatype Type = Pointer string Type | Plain TypeKind string

datatype TokenKind = PUNCTUATION | KEYWORD | IDENTIFIER | LITERAL | COMMENT

text \<open>
  A token: its extent is (file name, start line, start column, end line, end column);
  its location is where the extent starts.
\<close>

record Token =
  tok_kind :: TokenKind
  tok_spelling :: string
  tok_extent :: "string \<times> nat \<times> nat \<times> nat \<times> nat"

definition tok_file :: "Token \<Rightarrow> string" where
  "tok_file t = fst (tok_extent t)"

definition tok_line :: "Token \<Rightarrow> nat" where
  "tok_line t = fst (snd (tok_extent t))"

definition tok_column :: "Token \<Rightarrow> nat" where
  "tok_column t = fst (snd (snd (tok_extent t)))"

text \<open>
  A cursor with the attributes the checker reads: \<open>file_suffix\<close> and \<open>file_stem\<close> are
  \<open>Path(cursor.location.file.name).suffix\<close> and \<open>.stem\<close>; \<open>tokens\<close> are the spellings of
  \<open>cursor.get_tokens()\<close>; \<open>underlying_canonical\<close> is
  \<open>cursor.underlying_typedef_type.get_canonical()\<close>; the three \<open>parent_\<close> fields are read
  from \<open>cursor.semantic_parent\<close>.
\<close>

record Cursor =
  kind :: CursorKind
  spelling :: string
  cursor_type :: Type
  underlying_canonical :: Type
  linkage :: LinkageKind
  has_external_storage :: bool
  is_function_inlined :: bool
  is_from_main_file :: bool
  file_name :: string
  line :: nat
  column :: nat
  file_suffix :: string
  file_stem :: string
  tokens :: "string list"
  parent_spelling :: string
  parent_type_spelling :: string
  parent_is_anonymous :: bool

datatype cursor_tree = Node Cursor "cursor_tree list"

text \<open>
  A translation unit: its root cursor with all children, its token stream, and the answer
  of \<open>get_tokens(extent=get_extent(file, ((line, 1), (line, 1))))\<close> for a file and a line.
\<close>

record TranslationUnit =
  tu_cursor :: cursor_tree
  tu_tokens :: "Token list"
  tokens_at_line_start :: "string \<Rightarrow> nat \<Rightarrow> Token list"

text \<open>The result of \<open>re.fullmatch(p, s)\<close> followed by \<open>match.group("name")\<close>.\<close>

datatype group_result = NoMatch | IndexError | Group "string option"

text \<open>
  The library functions the checker calls, as parameters: \<open>re_fullmatch p s\<close> says whether
  \<open>re.fullmatch(p, s)\<close> matches, \<open>re_search p s\<close> is the span (start, end) of
  \<open>re.search(p, s)\<close>, \<open>safe_substitute t m\<close> is \<open>SubstTemplate(t).safe_substitute(m)\<close>,
  \<open>upper\<close> is \<open>str.upper\<close>. Patterns are taken to compile.
\<close>

record Library =
  re_fullmatch :: "string \<Rightarrow> string \<Rightarrow> bool"
  re_search :: "string \<Rightarrow> string \<Rightarrow> (nat \<times> nat) option"
  re_fullmatch_name :: "string \<Rightarrow> string \<Rightarrow> group_result"
  re_escape :: "string \<Rightarrow> string"
  safe_substitute :: "string \<Rightarrow> (string \<Rightarrow> string option) \<Rightarrow> string"
  upper :: "string \<Rightarrow> string"

text \<open>\<open>str(n)\<close> for a natural number.\<close>

fun str_nat :: "nat \<Rightarrow> string" where
  "str_nat n =
     (if n < 10 then [char_of (48 + n)] else str_nat (n div 10) @ [char_of (48 + n mod 10)])"

text \<open>\<open>xs.index(x, start, stop)\<close>; \<open>None\<close> stands for the \<open>ValueError\<close>.\<close>

definition index_of :: "'a \<Rightarrow> 'a list \<Rightarrow> nat \<Rightarrow> nat \<Rightarrow> nat option" where
  "index_of x xs start stop = List.find (\<lambda>i. xs ! i = x) [start..<min stop (length xs)]"

definition startswith :: "string \<Rightarrow> string \<Rightarrow> bool" where
  "startswith s p = (take (length p) s = p)"


section \<open>The processor\<close>

record IgnoreComment =
  token :: Token
  used :: bool

type_synonym location = "string \<times> nat \<times> nat"

text \<open>
  The lines the program prints whatever the verbosity is; the lines printed only with
  \<open>-v\<close> are left out.
\<close>

datatype message =
    UnexpectedLinkage LinkageKind string
  | MissingAffix location string bool string "string list"
  | ParentMatchWarning location string string string
  | NoNameGroupWarning string "string option"
  | FailsRule location string string string "string option" "string option"
  | IgnoreNotUsed location
  | UnrecognisedComment location string

text \<open>
  \<open>ignore_comments\<close> is the dict \<open>filename:line\<close> to \<open>IgnoreComment\<close>, in insertion order;
  the key is kept as the pair (file name, line), which the f-string renders injectively.
  \<open>out\<close> is what has been printed. The verbosity only adds printed lines and is not a
  field here.
\<close>

record Processor =
  rule_set :: RuleSet
  ignore_comments :: "((string \<times> nat) \<times> IgnoreComment) list"
  has_failures :: bool
  out :: "message list"

definition KIND_EXPANSION :: "(string \<times> string list) list" where
  "KIND_EXPANSION =
     [(''tag'', [''struct_tag'', ''enum_tag'', ''union_tag'']),
      (''typedef'', [''struct_typedef'', ''enum_typedef'', ''union_typedef'',
                     ''function_typedef'', ''scalar_typedef'']),
      (''member'', [''struct_member'', ''union_member''])]"

definition sub_placeholders ::
  "Library \<Rightarrow> Processor \<Rightarrow> string \<Rightarrow> (string \<Rightarrow> string option) \<Rightarrow> string" where
  "sub_placeholders L P template vars =
     (let result =
        (if 0 < length (placeholders (rule_set P))
         then safe_substitute L template (map_of (rev (placeholders (rule_set P))))
         else template)
      in safe_substitute L result vars)"

definition is_struct_enum_union_unnamed :: "Cursor \<Rightarrow> error + bool" where
  "is_struct_enum_union_unnamed cursor =
     (case (if kind cursor = ENUM_DECL then Some ''enum''
            else if kind cursor = STRUCT_DECL then Some ''struct''
            else if kind cursor = UNION_DECL then Some ''union''
            else None) of
        None \<Rightarrow> Inl AssertionError
      | Some t \<Rightarrow>
          (case index_of t (tokens cursor) 0 (length (tokens cursor)) of
             None \<Rightarrow> Inr False
           | Some type_pos \<Rightarrow>
               (case index_of ''{'' (tokens cursor) type_pos (length (tokens cursor)) of
                  None \<Rightarrow> Inr False
                | Some open_brace_pos \<Rightarrow>
                    (case index_of (spelling cursor) (tokens cursor) type_pos open_brace_pos of
                       Some _ \<Rightarrow> Inr False
                     | None \<Rightarrow> Inr True))))"

text \<open>\<open>t.spelling\<close>.\<close>

fun type_spelling :: "Type \<Rightarrow> string" where
  "type_spelling (Pointer s t) = s"
| "type_spelling (Plain k s) = s"

fun unwrap_pointers :: "Type \<Rightarrow> TypeKind \<times> string" where
  "unwrap_pointers (Pointer s t) = unwrap_pointers t"
| "unwrap_pointers (Plain k s) = (k, s)"

text \<open>
  \<open>_get_config_kind\<close>: the kind, the visibility and the warnings printed on the way.
\<close>

definition tag_kind :: "Cursor \<Rightarrow> string \<Rightarrow> string \<Rightarrow>
    error + (string option \<times> string option \<times> message list)" where
  "tag_kind cursor k global_or_file =
     (case is_struct_enum_union_unnamed cursor of
        Inl e \<Rightarrow> Inl e
      | Inr unnamed \<Rightarrow>
          if unnamed then Inr (None, None, []) else Inr (Some k, Some global_or_file, []))"

definition get_config_kind ::
  "Cursor \<Rightarrow> error + (string option \<times> string option \<times> message list)" where
  "get_config_kind cursor =
     (let is_header = (file_suffix cursor \<in> set [''.h'', ''.hpp'']);
          global_or_file = (if is_header then ''global'' else ''file'')
      in
      if kind cursor = PARM_DECL then Inr (Some ''parameter'', None, [])
      else if kind cursor = VAR_DECL then
        (if is_header then Inr (Some ''variable'', Some ''global'', [])
         else if linkage cursor = INTERNAL then Inr (Some ''variable'', Some ''file'', [])
         else if linkage cursor = NO_LINKAGE then Inr (Some ''variable'', Some ''local'', [])
         else if linkage cursor = EXTERNAL then
           (if has_external_storage cursor then Inr (None, None, [])
            else Inr (Some ''variable'', Some ''global'', []))
         else Inr (None, None, [UnexpectedLinkage (linkage cursor) (spelling cursor)]))
      else if kind cursor = FUNCTION_DECL then
        (if linkage cursor = EXTERNAL then Inr (Some ''function'', Some ''global'', [])
         else if is_function_inlined cursor \<and> is_header
           then Inr (Some ''function'', Some ''global'', [])
         else if linkage cursor = INTERNAL then Inr (Some ''function'', Some ''file'', [])
         else Inr (None, None, [UnexpectedLinkage (linkage cursor) (spelling cursor)]))
      else if kind cursor = STRUCT_DECL then tag_kind cursor ''struct_tag'' global_or_file
      else if kind cursor = UNION_DECL then tag_kind cursor ''union_tag'' global_or_file
      else if kind cursor = ENUM_DECL then tag_kind cursor ''enum_tag'' global_or_file
      else if kind cursor = TYPEDEF_DECL then
        (case unwrap_pointers (underlying_canonical cursor) of
           (RECORD, s) \<Rightarrow>
             if startswith s ''union '' then Inr (Some ''union_typedef'', Some global_or_file, [])
             else Inr (Some ''struct_typedef'', Some global_or_file, [])
         | (ENUM, s) \<Rightarrow> Inr (Some ''enum_typedef'', Some global_or_file, [])
         | (FUNCTIONPROTO, s) \<Rightarrow> Inr (Some ''function_typedef'', Some global_or_file, [])
         | (OTHER_TYPE, s) \<Rightarrow> Inr (Some ''scalar_typedef'', Some global_or_file, []))
      else if kind cursor = FIELD_DECL then
        (if startswith (parent_type_spelling cursor) ''union ''
         then Inr (Some ''union_member'', Some global_or_file, [])
         else Inr (Some ''struct_member'', None, []))
      else if kind cursor = ENUM_CONSTANT_DECL
        then Inr (Some ''enum_constant'', Some global_or_file, [])
      else Inr (None, None, []))"


subsection \<open>Selectors\<close>

definition is_alias :: "string \<Rightarrow> bool" where
  "is_alias k = (case map_of KIND_EXPANSION k of None \<Rightarrow> False | Some _ \<Rightarrow> True)"

text \<open>
  Lines 218-221: the \<open>for\<close> loop over \<open>rule_kinds\<close>, which extends and shrinks the list it
  iterates over. The iterator is an index: each round reads \<open>rule_kinds[i]\<close> while
  \<open>i < len(rule_kinds)\<close> and moves to \<open>i + 1\<close>; \<open>remove\<close> takes out the first occurrence.
\<close>

function expand_from :: "nat \<Rightarrow> string list \<Rightarrow> string list" where
  "expand_from i rule_kinds =
     (if i < length rule_kinds
      then (case map_of KIND_EXPANSION (rule_kinds ! i) of
              None \<Rightarrow> expand_from (Suc i) rule_kinds
            | Some ex \<Rightarrow> expand_from (Suc i) (remove1 (rule_kinds ! i) (rule_kinds @ ex)))
      else rule_kinds)"
  by pat_completeness auto
termination
proof (relation "measure (\<lambda>(i, ks). 5 * length (filter is_alias ks) + (length ks - i))")
  show "wf (measure (\<lambda>(i, ks). 5 * length (filter is_alias ks) + (length ks - i)))"
    by simp
next
  fix i :: nat and rule_kinds :: "string list"
  assume "i < length rule_kinds" "map_of KIND_EXPANSION (rule_kinds ! i) = None"
  then show "((Suc i, rule_kinds), (i, rule_kinds))
      \<in> measure (\<lambda>(i, ks). 5 * length (filter is_alias ks) + (length ks - i))"
    by simp
next
  fix i :: nat and rule_kinds :: "string list" and ex :: "string list"
  assume lt: "i < length rule_kinds"
    and ex: "map_of KIND_EXPANSION (rule_kinds ! i) = Some ex"
  let ?a = "rule_kinds ! i"
  have mem: "?a \<in> set rule_kinds" using lt by simp
  have al: "is_alias ?a" using ex by (simp add: is_alias_def)
  have exs: "filter is_alias ex = [] \<and> length ex \<le> 5"
    using ex by (auto simp: KIND_EXPANSION_def is_alias_def split: if_splits)
  have rm: "\<And>xs. ?a \<in> set xs \<Longrightarrow>
      Suc (length (filter is_alias (remove1 ?a xs))) = length (filter is_alias xs)"
  proof -
    fix xs show "?a \<in> set xs \<Longrightarrow>
      Suc (length (filter is_alias (remove1 ?a xs))) = length (filter is_alias xs)"
      using al by (induction xs) auto
  qed
  have f: "Suc (length (filter is_alias (remove1 ?a (rule_kinds @ ex))))
      = length (filter is_alias rule_kinds)"
    using rm[of "rule_kinds @ ex"] mem exs by simp
  have l: "length (remove1 ?a (rule_kinds @ ex)) = length rule_kinds + length ex - 1"
    using mem by (simp add: length_remove1)
  show "((Suc i, remove1 ?a (rule_kinds @ ex)), (i, rule_kinds))
      \<in> measure (\<lambda>(i, ks). 5 * length (filter is_alias ks) + (length ks - i))"
    using f l exs lt by (simp, arith)
qed

text \<open>
  Lines 227-234, the comparison of \<open>rule.pointer\<close> with the pointer level. In Python
  \<open>True == 1\<close> and \<open>False == 0\<close>, so the second disjunct also compares a boolean.
\<close>

definition pointer_matches :: "pointer_field \<Rightarrow> nat \<Rightarrow> bool" where
  "pointer_matches p pointer_level =
     (case p of
        PBool b \<Rightarrow> (b = (0 < pointer_level)) \<or> ((if b then 1 else 0) = pointer_level)
      | PInt n \<Rightarrow> n = int pointer_level)"

text \<open>
  \<open>_rule_applies\<close>. \<open>rule_kinds\<close> is the list object stored in the rule, so the rule comes
  back with the list as the loop left it.
\<close>

definition rule_applies ::
  "Library \<Rightarrow> Cursor \<Rightarrow> Rule \<Rightarrow> string \<Rightarrow> string option \<Rightarrow> nat option \<Rightarrow> bool \<times> Rule" where
  "rule_applies L cursor r config_kind vis pointer_level =
     (let r' = r\<lparr>kinds := map_option (expand_from 0) (kinds r)\<rparr> in
      if (case kinds r' of None \<Rightarrow> False | Some rule_kinds \<Rightarrow> config_kind \<notin> set rule_kinds)
        then (False, r')
      else if (case (pointer_level, pointer r') of
                 (Some pl, Some p) \<Rightarrow> \<not> pointer_matches p pl
               | _ \<Rightarrow> False)
        then (False, r')
      else if (case types r' of
                 None \<Rightarrow> False
               | Some ts \<Rightarrow> \<not> list_ex (\<lambda>x. re_fullmatch L x (type_spelling (cursor_type cursor))) ts)
        then (False, r')
      else if (case (vis, visibility r') of
                 (Some v, Some rv) \<Rightarrow> v \<notin> set rv
               | _ \<Rightarrow> False)
        then (False, r')
      else if \<not> (parent_match r' = None) \<and> kind cursor = ENUM_CONSTANT_DECL
              \<and> parent_is_anonymous cursor
        then (False, r')
      else (True, r'))"


subsection \<open>Testing one rule\<close>

definition ignore_key :: "Cursor \<Rightarrow> string \<times> nat" where
  "ignore_key cursor = (file_name cursor, line cursor)"

definition cursor_location :: "Cursor \<Rightarrow> location" where
  "cursor_location cursor = (file_name cursor, line cursor, column cursor)"

text \<open>\<open>ignore_comment.used = True\<close> on the object stored under the cursor's key.\<close>

definition mark_used :: "Cursor \<Rightarrow> IgnoreComment \<Rightarrow> Processor \<Rightarrow> Processor" where
  "mark_used cursor ic P =
     P\<lparr>ignore_comments := AList.update (ignore_key cursor) (ic\<lparr>used := True\<rparr>) (ignore_comments P)\<rparr>"

definition print :: "message \<Rightarrow> Processor \<Rightarrow> Processor" where
  "print m P = P\<lparr>out := out P @ [m]\<rparr>"

text \<open>
  Line 276: the expanded fragments of the affix rules, joined. A rule without the affix
  would hand \<open>None\<close> to the template, a \<open>TypeError\<close>.
\<close>

fun expand_affixes ::
  "Library \<Rightarrow> Processor \<Rightarrow> (string \<Rightarrow> string option) \<Rightarrow> bool \<Rightarrow> Rule list \<Rightarrow> error + string" where
  "expand_affixes L P vars is_prefix [] = Inr []"
| "expand_affixes L P vars is_prefix (x # xs) =
     (case (if is_prefix then prefix x else suffix x) of
        None \<Rightarrow> Inl TypeError
      | Some a \<Rightarrow>
          (case expand_affixes L P vars is_prefix xs of
             Inl e \<Rightarrow> Inl e
           | Inr rest \<Rightarrow> Inr (sub_placeholders L P a vars @ rest)))"

text \<open>
  The nested function \<open>test_affix_rules\<close> (lines 268-294). Its nonlocal variables
  \<open>name_without_prefix_suffix\<close> and \<open>success\<close> are passed in and returned together with the
  processor; the first component is the returned \<open>expanded_affix\<close>.
\<close>

definition test_affix_rules ::
  "Library \<Rightarrow> Cursor \<Rightarrow> (string \<Rightarrow> string option) \<Rightarrow> Rule list \<Rightarrow> bool
    \<Rightarrow> string \<Rightarrow> bool \<Rightarrow> Processor \<Rightarrow> error + (string option \<times> string \<times> bool \<times> Processor)" where
  "test_affix_rules L cursor vars affix_rules is_prefix name_without success P =
     (if 0 < length affix_rules then
        (case expand_affixes L P vars is_prefix affix_rules of
           Inl e \<Rightarrow> Inl e
         | Inr expanded_affix \<Rightarrow>
             (let regex = (if is_prefix then ''^'' @ expanded_affix else expanded_affix @ ''$'') in
              case re_search L regex name_without of
                None \<Rightarrow>
                  (case map_of (ignore_comments P) (ignore_key cursor) of
                     Some ic \<Rightarrow>
                       Inr (Some expanded_affix, name_without, success, mark_used cursor ic P)
                   | None \<Rightarrow>
                       Inr (Some expanded_affix, name_without, False,
                            print (MissingAffix (cursor_location cursor) (spelling cursor)
                                     is_prefix expanded_affix (map name affix_rules)) P))
              | Some (match_start, match_end) \<Rightarrow>
                  Inr (Some expanded_affix,
                       (if is_prefix then drop match_end name_without
                        else take match_start name_without),
                       success, P)))
      else Inr (None, name_without, success, P))"

text \<open>
  Lines 296-298: an empty affix on the rule leaves the accumulated affix out of this test.
  The result is (\<open>expanded_prefix\<close>, \<open>expanded_suffix\<close>, \<open>name_without_prefix_suffix\<close>,
  \<open>success\<close>, processor).
\<close>

definition test_affixes ::
  "Library \<Rightarrow> Cursor \<Rightarrow> Rule \<Rightarrow> Rule list \<Rightarrow> Rule list \<Rightarrow> (string \<Rightarrow> string option) \<Rightarrow> Processor
    \<Rightarrow> error + (string option \<times> string option \<times> string \<times> bool \<times> Processor)" where
  "test_affixes L cursor r prefix_rules suffix_rules vars P =
     (case (if prefix r = Some []
            then Inr (None, spelling cursor, True, P)
            else test_affix_rules L cursor vars prefix_rules True (spelling cursor) True P) of
        Inl e \<Rightarrow> Inl e
      | Inr (expanded_prefix, n1, s1, P1) \<Rightarrow>
          (case (if suffix r = Some []
                 then Inr (None, n1, s1, P1)
                 else test_affix_rules L cursor vars suffix_rules False n1 s1 P1) of
             Inl e \<Rightarrow> Inl e
           | Inr (expanded_suffix, n2, s2, P2) \<Rightarrow>
               Inr (expanded_prefix, expanded_suffix, n2, s2, P2)))"

text \<open>\<open>re.sub(r"(?<!^)(?=[A-Z])", "_", s)\<close>: an underscore before every capital but the first character.\<close>

fun underscore_capitals :: "string \<Rightarrow> string" where
  "underscore_capitals [] = []"
| "underscore_capitals (c # cs) =
     (if 65 \<le> (of_char c :: nat) \<and> (of_char c :: nat) \<le> 90
      then CHR ''_'' # c # underscore_capitals cs
      else c # underscore_capitals cs)"

definition upper_snake :: "Library \<Rightarrow> string \<Rightarrow> string" where
  "upper_snake L s =
     upper L (case s of [] \<Rightarrow> [] | c # cs \<Rightarrow> c # underscore_capitals cs)"

text \<open>
  Lines 300-318: the \<open>parent\<close> variables of an enum constant. A named group that took no
  part in the match makes \<open>parent_name\<close> \<open>None\<close>, which \<open>re.escape\<close> refuses.
\<close>

definition parent_vars ::
  "Library \<Rightarrow> Cursor \<Rightarrow> Rule \<Rightarrow> (string \<Rightarrow> string option) \<Rightarrow> Processor
    \<Rightarrow> error + ((string \<Rightarrow> string option) \<times> Processor)" where
  "parent_vars L cursor r vars P =
     (if kind cursor = ENUM_CONSTANT_DECL then
        (case (case parent_match r of
                 None \<Rightarrow> Inr (Some (parent_spelling cursor), P)
               | Some pm \<Rightarrow>
                   if parent_is_anonymous cursor then Inl AssertionError
                   else (case re_fullmatch_name L pm (parent_spelling cursor) of
                           NoMatch \<Rightarrow>
                             Inr (Some (parent_spelling cursor),
                                  print (ParentMatchWarning (cursor_location cursor) (name r) pm
                                           (parent_spelling cursor)) P)
                         | IndexError \<Rightarrow>
                             Inr (Some (parent_spelling cursor),
                                  print (NoNameGroupWarning (name r) (rule r)) P)
                         | Group g \<Rightarrow> Inr (g, P))) of
           Inl e \<Rightarrow> Inl e
         | Inr (None, P1) \<Rightarrow> Inl TypeError
         | Inr (Some parent_name, P1) \<Rightarrow>
             Inr (vars(''parent'' \<mapsto> re_escape L parent_name,
                       ''parent:upper-snake'' \<mapsto> re_escape L (upper_snake L parent_name)),
                  P1))
      else Inr (vars, P))"

text \<open>
  Lines 339-356: the expanded rule against the name without its affixes. The result is the
  returned \<open>success\<close>: \<open>Some True\<close>, \<open>Some False\<close> or \<open>None\<close>.
\<close>

definition match_rule ::
  "Library \<Rightarrow> Cursor \<Rightarrow> Rule \<Rightarrow> string \<Rightarrow> string option \<Rightarrow> string option \<Rightarrow> string \<Rightarrow> bool
    \<Rightarrow> Processor \<Rightarrow> error + (bool option \<times> Processor)" where
  "match_rule L cursor r rule_regex expanded_prefix expanded_suffix name_without success P =
     (if re_fullmatch L rule_regex name_without then Inr (Some success, P)
      else
        (case map_of (ignore_comments P) (ignore_key cursor) of
           Some ic \<Rightarrow> Inr (Some success, mark_used cursor ic P)
         | None \<Rightarrow>
             if \<not> (rule r = None)
             then Inr (Some False,
                       print (FailsRule (cursor_location cursor) (spelling cursor) (name r)
                                rule_regex expanded_prefix expanded_suffix) P)
             else if allow_rule r = None then Inl AssertionError
             else Inr (None, P)))"

text \<open>
  \<open>_test_rule\<close>: the verdict (\<open>Some True\<close> everything is OK, \<open>Some False\<close> rule failed,
  \<open>None\<close> continue processing), the substitution variables as the call left them, and the
  processor.
\<close>

definition test_rule ::
  "Library \<Rightarrow> Cursor \<Rightarrow> Rule \<Rightarrow> Rule list \<Rightarrow> Rule list \<Rightarrow> (string \<Rightarrow> string option) \<Rightarrow> Processor
    \<Rightarrow> error + (bool option \<times> (string \<Rightarrow> string option) \<times> Processor)" where
  "test_rule L cursor r prefix_rules suffix_rules vars P =
     (case test_affixes L cursor r prefix_rules suffix_rules vars P of
        Inl e \<Rightarrow> Inl e
      | Inr (expanded_prefix, expanded_suffix, name_without, success, P1) \<Rightarrow>
          (case parent_vars L cursor r vars P1 of
             Inl e \<Rightarrow> Inl e
           | Inr (vars', P2) \<Rightarrow>
               (case py_or (rule r) (allow_rule r) of
                  None \<Rightarrow> Inl AssertionError
                | Some rule_text \<Rightarrow>
                    (case py_or (Some rule_text) (allow_rule r) of
                       None \<Rightarrow> Inl TypeError
                     | Some t \<Rightarrow>
                         (case match_rule L cursor r (sub_placeholders L P2 t vars')
                                 expanded_prefix expanded_suffix name_without success P2 of
                            Inl e \<Rightarrow> Inl e
                          | Inr (res, P3) \<Rightarrow> Inr (res, vars', P3))))))"


subsection \<open>Evaluating a declaration\<close>

fun pointer_depth :: "Type \<Rightarrow> nat" where
  "pointer_depth (Pointer s t) = Suc (pointer_depth t)"
| "pointer_depth (Plain k s) = 0"

text \<open>Lines 374-385.\<close>

definition pointer_level_of :: "Cursor \<Rightarrow> nat option" where
  "pointer_level_of cursor =
     (if kind cursor \<in> set [VAR_DECL, PARM_DECL, TYPEDEF_DECL, FIELD_DECL]
      then Some (pointer_depth (if kind cursor = TYPEDEF_DECL then underlying_canonical cursor
                                else cursor_type cursor))
      else None)"

text \<open>Lines 387-394; \<open>str(None)\<close> is \<open>None\<close> spelled out.\<close>

definition substitute_vars :: "Library \<Rightarrow> Cursor \<Rightarrow> nat option \<Rightarrow> string \<Rightarrow> string option" where
  "substitute_vars L cursor pointer_level =
     [''filename'' \<mapsto> re_escape L (file_stem cursor),
      ''case:camel'' \<mapsto> ''[a-z][a-zA-Z0-9]*'',
      ''case:pascal'' \<mapsto> ''[A-Z][a-zA-Z0-9]*'',
      ''case:snake'' \<mapsto> ''[a-z]([a-z0-9_]*[a-z0-9])?'',
      ''case:upper-snake'' \<mapsto> ''[A-Z]([A-Z0-9_]*[A-Z0-9])?'',
      ''pointer-level'' \<mapsto> (case pointer_level of None \<Rightarrow> ''None'' | Some n \<Rightarrow> str_nat n)]"

definition keep_rule ::
  "Rule \<Rightarrow> error + (bool \<times> Rule list \<times> Processor) \<Rightarrow> error + (bool \<times> Rule list \<times> Processor)" where
  "keep_rule r res =
     (case res of Inl e \<Rightarrow> Inl e | Inr (b, rs, P) \<Rightarrow> Inr (b, r # rs, P))"

text \<open>
  The loop of \<open>_process_node\<close> (lines 404-423) over the rules that are still to come, with
  the prefix and suffix rules collected so far. It returns the verdict, the rules as the
  selector tests left them, and the processor.
\<close>

fun process_rules ::
  "Library \<Rightarrow> Cursor \<Rightarrow> string \<Rightarrow> string option \<Rightarrow> nat option \<Rightarrow> Rule list \<Rightarrow> Rule list \<Rightarrow> Rule list
    \<Rightarrow> (string \<Rightarrow> string option) \<Rightarrow> Processor \<Rightarrow> error + (bool \<times> Rule list \<times> Processor)" where
  "process_rules L cursor config_kind vis pointer_level [] prefix_rules suffix_rules vars P =
     Inr (True, [], P)"
| "process_rules L cursor config_kind vis pointer_level (r0 # rest) prefix_rules suffix_rules vars P =
     (case rule_applies L cursor r0 config_kind vis pointer_level of
        (False, r) \<Rightarrow>
          keep_rule r (process_rules L cursor config_kind vis pointer_level rest
                         prefix_rules suffix_rules vars P)
      | (True, r) \<Rightarrow>
          (let prefix_rules' = (if truthy (prefix r) then prefix_rules @ [r] else prefix_rules);
               suffix_rules' = (if truthy (suffix r) then suffix_rules @ [r] else suffix_rules)
           in if rule r = None \<and> allow_rule r = None
              then keep_rule r (process_rules L cursor config_kind vis pointer_level rest
                                  prefix_rules' suffix_rules' vars P)
              else (case test_rule L cursor r prefix_rules' suffix_rules' vars P of
                      Inl e \<Rightarrow> Inl e
                    | Inr (Some result, vars', P') \<Rightarrow> Inr (result, r # rest, P')
                    | Inr (None, vars', P') \<Rightarrow>
                        keep_rule r (process_rules L cursor config_kind vis pointer_level rest
                                       prefix_rules' suffix_rules' vars' P'))))"

text \<open>\<open>_process_node\<close>.\<close>

definition process_node :: "Library \<Rightarrow> Cursor \<Rightarrow> Processor \<Rightarrow> error + (bool \<times> Processor)" where
  "process_node L cursor P =
     (if \<not> is_from_main_file cursor then Inr (True, P)
      else
        (case get_config_kind cursor of
           Inl e \<Rightarrow> Inl e
         | Inr (None, vis, msgs) \<Rightarrow> Inr (True, P\<lparr>out := out P @ msgs\<rparr>)
         | Inr (Some config_kind, vis, msgs) \<Rightarrow>
             (case process_rules L cursor config_kind vis (pointer_level_of cursor)
                     (rules (rule_set P)) [] []
                     (substitute_vars L cursor (pointer_level_of cursor))
                     (P\<lparr>out := out P @ msgs\<rparr>) of
                Inl e \<Rightarrow> Inl e
              | Inr (result, rules', P') \<Rightarrow>
                  Inr (result, P'\<lparr>rule_set := (rule_set P')\<lparr>rules := rules'\<rparr>\<rparr>))))"


subsection \<open>The two passes\<close>

text \<open>
  \<open>_COMMENT_REGEX\<close>, matched with \<open>re.fullmatch\<close>. \<open>after_name\<close> reads
  \<open>\s*c-name-style\s+\<close> and gives the text after the longest run of white space;
  \<open>.\<close> matches everything but a newline. The result of \<open>match_comment\<close> is
  (\<open>group(1)\<close>, \<open>group(2)\<close>).
\<close>

definition after_name :: "string \<Rightarrow> string option" where
  "after_name s =
     (let s1 = dropWhile isspace s in
      if startswith s1 ''c-name-style''
      then (case drop (length ''c-name-style'') s1 of
              [] \<Rightarrow> None
            | c # cs \<Rightarrow> if isspace c then Some (dropWhile isspace cs) else None)
      else None)"

definition match_comment :: "string \<Rightarrow> (string option \<times> string option) option" where
  "match_comment s =
     (if startswith s ''//'' then
        (case after_name (drop 2 s) of
           None \<Rightarrow> None
         | Some g \<Rightarrow> if CHR 0x0A \<in> set g then None else Some (Some g, None))
      else if startswith s ''/*'' then
        (case after_name (drop 2 s) of
           None \<Rightarrow> None
         | Some t \<Rightarrow>
             if 2 \<le> length t \<and> drop (length t - 2) t = ''*/''
                \<and> CHR 0x0A \<notin> set (take (length t - 2) t)
             then Some (None, Some (take (length t - 2) t))
             else None)
      else None)"

text \<open>
  The body of the loop of \<open>_process_tokens\<close>. \<open>(match.group(1) or match.group(2))\<close> is
  \<open>None\<close> when the line form matched with nothing after the white space, and
  \<open>None.strip()\<close> is an \<open>AttributeError\<close>.
\<close>

definition process_token :: "TranslationUnit \<Rightarrow> Token \<Rightarrow> Processor \<Rightarrow> error + Processor" where
  "process_token translation_unit tk P =
     (if tok_kind tk = COMMENT then
        (case match_comment (tok_spelling tk) of
           None \<Rightarrow> Inr P
         | Some (g1, g2) \<Rightarrow>
             (case py_or g1 g2 of
                None \<Rightarrow> Inl AttributeError
              | Some v \<Rightarrow>
                  if strip v = ''ignore'' then
                    (let tokens_before =
                           tokens_at_line_start translation_unit (tok_file tk) (tok_line tk);
                         ln = (if (case tokens_before of
                                     [] \<Rightarrow> True
                                   | [t] \<Rightarrow> tok_extent t = tok_extent tk
                                   | _ \<Rightarrow> False)
                               then tok_line tk + 1 else tok_line tk)
                     in Inr (P\<lparr>ignore_comments :=
                                AList.update (tok_file tk, ln) \<lparr>token = tk, used = False\<rparr>
                                  (ignore_comments P)\<rparr>))
                  else Inr (print (UnrecognisedComment (tok_file tk, tok_line tk, tok_column tk)
                                     (tok_spelling tk)) P)))
      else Inr P)"

fun process_tokens :: "TranslationUnit \<Rightarrow> Token list \<Rightarrow> Processor \<Rightarrow> error + Processor" where
  "process_tokens translation_unit [] P = Inr P"
| "process_tokens translation_unit (tk # tks) P =
     (case process_token translation_unit tk P of
        Inl e \<Rightarrow> Inl e
      | Inr P' \<Rightarrow> process_tokens translation_unit tks P')"

text \<open>
  Whether \<open>_process\<close> leaves the children of the cursor out: a typedef whose canonical
  underlying type is a record or an enum (lines 462-465, negated).
\<close>

definition skips_children :: "Cursor \<Rightarrow> bool" where
  "skips_children cursor =
     (kind cursor = TYPEDEF_DECL \<and>
      (case underlying_canonical cursor of
         Pointer s t \<Rightarrow> False
       | Plain k s \<Rightarrow> k \<in> set [RECORD, ENUM]))"

text \<open>\<open>_process\<close>, and its loop over the children.\<close>

fun process_cursor :: "Library \<Rightarrow> cursor_tree \<Rightarrow> Processor \<Rightarrow> error + Processor"
  and process_children :: "Library \<Rightarrow> cursor_tree list \<Rightarrow> Processor \<Rightarrow> error + Processor" where
  "process_cursor L (Node cursor children) P =
     (case process_node L cursor P of
        Inl e \<Rightarrow> Inl e
      | Inr (passed, P1) \<Rightarrow>
          (let P2 = (if \<not> passed then P1\<lparr>has_failures := True\<rparr> else P1) in
           if skips_children cursor then Inr P2 else process_children L children P2))"
| "process_children L [] P = Inr P"
| "process_children L (child # children) P =
     (case process_cursor L child P of
        Inl e \<Rightarrow> Inl e
      | Inr P' \<Rightarrow> process_children L children P')"

text \<open>\<open>process\<close>: both passes, then a warning for every ignore comment that was not used.\<close>

definition process :: "Library \<Rightarrow> TranslationUnit \<Rightarrow> Processor \<Rightarrow> error + (bool \<times> Processor)" where
  "process L translation_unit P =
     (case process_tokens translation_unit (tu_tokens translation_unit) P of
        Inl e \<Rightarrow> Inl e
      | Inr P1 \<Rightarrow>
          (case process_cursor L (tu_cursor translation_unit) P1 of
             Inl e \<Rightarrow> Inl e
           | Inr P2 \<Rightarrow>
               (let unused = filter (\<lambda>ic. \<not> used ic) (map snd (ignore_comments P2));
                    P3 = P2\<lparr>out := out P2 @
                           map (\<lambda>ic. IgnoreNotUsed (tok_file (token ic), tok_line (token ic),
                                                     tok_column (token ic))) unused\<rparr>
                in Inr (\<not> has_failures P3, P3))))"

definition Processor_init :: "RuleSet \<Rightarrow> Processor" where
  "Processor_init rs = \<lparr> rule_set = rs, ignore_comments = [], has_failures = False, out = [] \<rparr>"

section \<open>Vocabulary of the properties\<close>

subsection \<open>Configuration sections\<close>

text \<open>The options that the load of a rule section reads, in the order it reads them.\<close>

definition read_keys :: "string list" where
  "read_keys = [''kind'', ''type'', ''visibility'', ''pointer'', ''parent_match'',
                ''prefix'', ''suffix'', ''rule'', ''allow-rule'']"

text \<open>An option that is there and cannot be interpolated.\<close>

definition unreadable :: "SectionProxy \<Rightarrow> string \<Rightarrow> bool" where
  "unreadable sec key = (case map_of sec key of Some (Inl e) \<Rightarrow> True | _ \<Rightarrow> False)"

text \<open>A section one of whose options that the load reads cannot be interpolated.\<close>

definition read_fails :: "SectionProxy \<Rightarrow> bool" where
  "read_fails sec = list_ex (unreadable sec) read_keys"

text \<open>A section one of whose options, whichever, cannot be interpolated.\<close>

definition items_fail :: "SectionProxy \<Rightarrow> bool" where
  "items_fail sec = list_ex (\<lambda>kv. isl (snd kv)) sec"

text \<open>A section without \<open>rule\<close>, \<open>allow-rule\<close>, \<open>prefix\<close> and \<open>suffix\<close>.\<close>

definition lacks_all :: "SectionProxy \<Rightarrow> bool" where
  "lacks_all sec =
     (map_of sec ''rule'' = None \<and> map_of sec ''allow-rule'' = None
      \<and> map_of sec ''prefix'' = None \<and> map_of sec ''suffix'' = None)"

text \<open>A section with both \<open>rule\<close> and \<open>allow-rule\<close>.\<close>

definition has_both :: "SectionProxy \<Rightarrow> bool" where
  "has_both sec = (\<not> (map_of sec ''rule'' = None) \<and> \<not> (map_of sec ''allow-rule'' = None))"

text \<open>A section whose \<open>pointer\<close> reads as neither an integer nor a boolean token.\<close>

definition bad_pointer :: "SectionProxy \<Rightarrow> bool" where
  "bad_pointer sec =
     (case map_of sec ''pointer'' of
        Some (Inr v) \<Rightarrow> py_int v = None \<and> convert_to_boolean v = None
      | _ \<Rightarrow> False)"

text \<open>
  A section on which the load fails: \<open>placeholders\<close> with an option that cannot be
  interpolated; another section with such an option among those read, a bad pointer, none
  of the four members or both patterns.
\<close>

definition offending :: "string \<times> SectionProxy \<Rightarrow> bool" where
  "offending s =
     (if fst s = ''placeholders'' then items_fail (snd s)
      else (read_fails (snd s) \<or> bad_pointer (snd s) \<or> lacks_all (snd s) \<or> has_both (snd s)))"

text \<open>A loaded rule has one of the four members and not both patterns.\<close>

definition rule_ok :: "Rule \<Rightarrow> bool" where
  "rule_ok r =
     (\<not> (rule r = None \<and> allow_rule r = None \<and> prefix r = None \<and> suffix r = None)
      \<and> \<not> (\<not> (rule r = None) \<and> \<not> (allow_rule r = None)))"

subsection \<open>Sample inputs\<close>

text \<open>
  A library for patterns that are plain words (letters, digits, underscores), on which it
  agrees with Python: a word matches itself only, \<open>^word\<close> is found at the start and
  \<open>word$\<close> at the end, there is nothing to substitute or to escape and no group called
  \<open>name\<close>; \<open>upper\<close> capitalises the letters a to z.
\<close>

definition upper_char :: "char \<Rightarrow> char" where
  "upper_char c =
     (let n = (of_char c :: nat) in if 97 \<le> n \<and> n \<le> 122 then char_of (n - 32) else c)"

definition word_search :: "string \<Rightarrow> string \<Rightarrow> (nat \<times> nat) option" where
  "word_search p s =
     (case p of
        [] \<Rightarrow> Some (0, 0)
      | c # w \<Rightarrow>
          if c = CHR ''^'' then (if startswith s w then Some (0, length w) else None)
          else if last p = CHR ''$''
            then (if length (butlast p) \<le> length s
                     \<and> drop (length s - length (butlast p)) s = butlast p
                  then Some (length s - length (butlast p), length s) else None)
          else None)"

definition word_library :: Library where
  "word_library =
     \<lparr> re_fullmatch = (\<lambda>p s. p = s),
       re_search = word_search,
       re_fullmatch_name = (\<lambda>p s. if p = s then IndexError else NoMatch),
       re_escape = (\<lambda>s. s),
       safe_substitute = (\<lambda>t m. t),
       upper = map upper_char \<rparr>"

text \<open>
  What reading \<open>rule = [a-z]+%\<close> raises: the message of the \<open>InterpolationSyntaxError\<close>
  for a \<open>%\<close> at the end of a value.
\<close>

definition trailing_percent :: interpolation_error where
  "trailing_percent =
     InterpolationSyntaxError
       ([CHR 0x27] @ ''%'' @ [CHR 0x27] @ '' must be followed by '' @ [CHR 0x27] @ ''%''
        @ [CHR 0x27] @ '' or '' @ [CHR 0x27] @ ''('' @ [CHR 0x27] @ '', found: ''
        @ [CHR 0x27] @ ''%'' @ [CHR 0x27])"

text \<open>A variable with no linkage declared at \<open>main.c:3:5\<close>, with its name and its type.\<close>

definition local_variable :: "string \<Rightarrow> Type \<Rightarrow> Cursor" where
  "local_variable n t =
     \<lparr> kind = VAR_DECL, spelling = n, cursor_type = t, underlying_canonical = t,
       linkage = NO_LINKAGE, has_external_storage = False, is_function_inlined = False,
       is_from_main_file = True, file_name = ''main.c'', line = 3, column = 5,
       file_suffix = ''.c'', file_stem = ''main'', tokens = [],
       parent_spelling = [], parent_type_spelling = [], parent_is_anonymous = False \<rparr>"

definition int_type :: Type where
  "int_type = Plain OTHER_TYPE ''int''"

text \<open>A rule with its section name and no option set.\<close>

definition bare_rule :: "string \<Rightarrow> Rule" where
  "bare_rule n =
     \<lparr> name = n, kinds = None, visibility = None, types = None, pointer = None,
       parent_match = None, prefix = None, suffix = None, rule = None, allow_rule = None \<rparr>"

definition ignore_token :: Token where
  "ignore_token =
     \<lparr> tok_kind = COMMENT, tok_spelling = ''// c-name-style ignore'',
       tok_extent = (''main.c'', 3, 20, 3, 42) \<rparr>"

subsection \<open>Tokens and the walk\<close>

text \<open>
  A comment token of the suppression grammar: \<open>_COMMENT_REGEX\<close> matches its spelling and
  the text after \<open>c-name-style\<close>, stripped, is \<open>ignore\<close>.
\<close>

definition is_ignore_comment :: "Token \<Rightarrow> bool" where
  "is_ignore_comment tk =
     (tok_kind tk = COMMENT \<and>
      (case match_comment (tok_spelling tk) of
         None \<Rightarrow> False
       | Some (g1, g2) \<Rightarrow>
           (case py_or g1 g2 of None \<Rightarrow> False | Some v \<Rightarrow> strip v = ''ignore'')))"

text \<open>No token of the stream starts on the line of \<open>tk\<close> before \<open>tk\<close>.\<close>

definition first_on_line :: "TranslationUnit \<Rightarrow> Token \<Rightarrow> bool" where
  "first_on_line translation_unit tk =
     list_all (\<lambda>u. \<not> (tok_file u = tok_file tk \<and> tok_line u = tok_line tk
                       \<and> tok_column u < tok_column tk))
       (tu_tokens translation_unit)"

text \<open>
  What libclang answers for the empty extent at column 1 of a line that holds a token: the
  lexer starts there and gives the first token of that line.
\<close>

definition line_start_lexed :: "TranslationUnit \<Rightarrow> bool" where
  "line_start_lexed translation_unit =
     list_all (\<lambda>tk.
        list_ex (\<lambda>u. tokens_at_line_start translation_unit (tok_file tk) (tok_line tk) = [u]
                      \<and> tok_file u = tok_file tk \<and> tok_line u = tok_line tk
                      \<and> first_on_line translation_unit u)
          (tu_tokens translation_unit))
       (tu_tokens translation_unit)"

text \<open>Two tokens of the stream that start at the same place have the same extent.\<close>

definition starts_distinct :: "TranslationUnit \<Rightarrow> bool" where
  "starts_distinct translation_unit =
     list_all (\<lambda>u. list_all (\<lambda>v.
        if tok_file u = tok_file v \<and> tok_line u = tok_line v \<and> tok_column u = tok_column v
        then tok_extent u = tok_extent v else True)
          (tu_tokens translation_unit))
       (tu_tokens translation_unit)"

text \<open>The key under which the ignore comment of \<open>tk\<close> is to be registered.\<close>

definition ignore_comment_key :: "TranslationUnit \<Rightarrow> Token \<Rightarrow> string \<times> nat" where
  "ignore_comment_key translation_unit tk =
     (tok_file tk, if first_on_line translation_unit tk then tok_line tk + 1 else tok_line tk)"

text \<open>
  The cursors on which \<open>_process\<close> runs \<open>_process_node\<close>, in order.
\<close>

fun evaluated :: "cursor_tree \<Rightarrow> Cursor list" where
  "evaluated (Node cursor children) =
     cursor # (if skips_children cursor then [] else concat (map evaluated children))"

text \<open>The first three lines of \<open>_process\<close>, for the cursors of a list one after the other.\<close>

fun process_nodes :: "Library \<Rightarrow> Cursor list \<Rightarrow> Processor \<Rightarrow> error + Processor" where
  "process_nodes L [] P = Inr P"
| "process_nodes L (cursor # cursors) P =
     (case process_node L cursor P of
        Inl e \<Rightarrow> Inl e
      | Inr (passed, P1) \<Rightarrow>
          process_nodes L cursors (if \<not> passed then P1\<lparr>has_failures := True\<rparr> else P1))"

text \<open>
  The tree of \<open>typedef struct { int x; } Foo;\<close> in \<open>main.c\<close>: the struct with its member
  is a child of the translation unit and of the typedef.
\<close>

definition main_cursor :: "CursorKind \<Rightarrow> string \<Rightarrow> Type \<Rightarrow> nat \<Rightarrow> Cursor" where
  "main_cursor k n t col =
     \<lparr> kind = k, spelling = n, cursor_type = t, underlying_canonical = t,
       linkage = NO_LINKAGE, has_external_storage = False, is_function_inlined = False,
       is_from_main_file = True, file_name = ''main.c'', line = 1, column = col,
       file_suffix = ''.c'', file_stem = ''main'',
       tokens = [''struct'', ''{'', ''int'', ''x'', '';'', ''}''],
       parent_spelling = ''Foo'', parent_type_spelling = ''Foo'', parent_is_anonymous = False \<rparr>"

definition member_x :: cursor_tree where
  "member_x = Node (main_cursor FIELD_DECL ''x'' (Plain OTHER_TYPE ''int'') 22) []"

definition struct_Foo :: cursor_tree where
  "struct_Foo = Node (main_cursor STRUCT_DECL ''Foo'' (Plain RECORD ''Foo'') 9) [member_x]"

definition typedef_Foo :: cursor_tree where
  "typedef_Foo = Node (main_cursor TYPEDEF_DECL ''Foo'' (Plain RECORD ''Foo'') 29) [struct_Foo]"

definition unit_Foo :: cursor_tree where
  "unit_Foo = Node (main_cursor OTHER_DECL ''main.c'' (Plain OTHER_TYPE []) 1)
                [struct_Foo, typedef_Foo]"

text \<open>
  The tree of \<open>typedef struct { int x; } *FooPtr;\<close> in \<open>main.c\<close>: the struct has no name,
  and it is a child of the translation unit and of the typedef, whose canonical underlying
  type is a pointer to the struct.
\<close>

definition unnamed_member :: Cursor where
  "unnamed_member =
     (main_cursor FIELD_DECL ''x'' (Plain OTHER_TYPE ''int'') 22)
       \<lparr>parent_spelling := [], parent_type_spelling := ''struct (unnamed)''\<rparr>"

definition struct_unnamed :: cursor_tree where
  "struct_unnamed =
     Node (main_cursor STRUCT_DECL [] (Plain RECORD ''struct (unnamed)'') 9)
       [Node unnamed_member []]"

definition typedef_FooPtr :: cursor_tree where
  "typedef_FooPtr =
     Node (main_cursor TYPEDEF_DECL ''FooPtr''
             (Pointer ''struct (unnamed) *'' (Plain RECORD ''struct (unnamed)'')) 28)
       [struct_unnamed]"

definition unit_FooPtr :: cursor_tree where
  "unit_FooPtr = Node (main_cursor OTHER_DECL ''main.c'' (Plain OTHER_TYPE []) 1)
                   [struct_unnamed, typedef_FooPtr]"

text \<open>The rule set of \<open>[members] kind = struct_member, rule = m_x\<close>.\<close>

definition member_rules :: RuleSet where
  "member_rules =
     \<lparr> rules = [(bare_rule ''members'')\<lparr>kinds := Some [''struct_member''], rule := Some ''m_x''\<rparr>],
       placeholders = [] \<rparr>"

text \<open>
  The tokens of a file with \<open>int Foo; // c-name-style ignore\<close> on line 3 and
  \<open>/* c-name-style ignore */\<close> alone on line 5, and the translation unit with them.
\<close>

definition sample_tokens :: "Token list" where
  "sample_tokens =
     [\<lparr> tok_kind = KEYWORD, tok_spelling = ''int'', tok_extent = (''main.c'', 3, 1, 3, 4) \<rparr>,
      \<lparr> tok_kind = IDENTIFIER, tok_spelling = ''Foo'', tok_extent = (''main.c'', 3, 5, 3, 8) \<rparr>,
      \<lparr> tok_kind = PUNCTUATION, tok_spelling = '';'', tok_extent = (''main.c'', 3, 8, 3, 9) \<rparr>,
      \<lparr> tok_kind = COMMENT, tok_spelling = ''// c-name-style ignore'',
        tok_extent = (''main.c'', 3, 10, 3, 32) \<rparr>,
      \<lparr> tok_kind = COMMENT, tok_spelling = ''/* c-name-style ignore */'',
        tok_extent = (''main.c'', 5, 3, 5, 28) \<rparr>]"

definition sample_unit :: TranslationUnit where
  "sample_unit =
     \<lparr> tu_cursor = unit_Foo, tu_tokens = sample_tokens,
       tokens_at_line_start = (\<lambda>f l.
         if l = 3 then [sample_tokens ! 0] else if l = 5 then [sample_tokens ! 4] else []) \<rparr>"


section \<open>Properties\<close>

subsection \<open>Loading the configuration\<close>

lemma and_then_Inr:
  "(and_then m f = Inr y) = (\<exists>x. m = Inr x \<and> f x = Inr y)"
  by (cases m) (simp_all add: and_then_def)

lemma and_then_Inl:
  "(and_then m f = Inl e) = (m = Inl e \<or> (\<exists>x. m = Inr x \<and> f x = Inl e))"
  by (cases m) (simp_all add: and_then_def)

lemma section_get_Inl:
  "(section_get sec k = Inl e) = (\<exists>ie. map_of sec k = Some (Inl ie) \<and> e = InterpolationError ie)"
  by (auto simp: section_get_def split: option.splits sum.splits)

lemma section_get_Inr:
  "section_get sec k = Inr v \<Longrightarrow> \<not> unreadable sec k \<and> (v = None) = (map_of sec k = None)"
  by (auto simp: section_get_def unreadable_def split: option.splits sum.splits)

lemma get_pointer_Inr:
  "get_pointer sec = Inr p \<Longrightarrow> \<not> unreadable sec ''pointer'' \<and> \<not> bad_pointer sec"
  by (auto simp: get_pointer_def section_get_def unreadable_def bad_pointer_def
        split: option.splits sum.splits)

lemma get_pointer_Inl:
  "get_pointer sec = Inl e \<Longrightarrow>
     (\<exists>ie. map_of sec ''pointer'' = Some (Inl ie) \<and> e = InterpolationError ie)
     \<or> (bad_pointer sec \<and> (\<exists>v. map_of sec ''pointer'' = Some (Inr v)
                               \<and> e = ValueError (''Not a boolean: '' @ v)))"
  by (auto simp: get_pointer_def section_get_def bad_pointer_def split: option.splits sum.splits)

lemma contains_mid: "contains (a @ n @ b) n"
proof -
  have "length a \<in> set [0..<Suc (length (a @ n @ b))]" by simp
  moreover have "take (length n) (drop (length a) (a @ n @ b)) = n" by simp
  ultimately show ?thesis unfolding contains_def list_ex_iff by blast
qed

lemma load_section_Inr:
  assumes "load_section n sec = Inr r"
  shows "rule_ok r \<and> name r = n \<and> \<not> read_fails sec \<and> \<not> bad_pointer sec
         \<and> \<not> lacks_all sec \<and> \<not> has_both sec"
proof -
  from assms obtain kv tv vv ptr pm pre suf rl al where
    g: "section_get sec ''kind'' = Inr kv" "section_get sec ''type'' = Inr tv"
       "section_get sec ''visibility'' = Inr vv" "get_pointer sec = Inr ptr"
       "section_get sec ''parent_match'' = Inr pm" "section_get sec ''prefix'' = Inr pre"
       "section_get sec ''suffix'' = Inr suf" "section_get sec ''rule'' = Inr rl"
       "section_get sec ''allow-rule'' = Inr al"
    and c: "\<not> (rl = None \<and> al = None \<and> pre = None \<and> suf = None)"
           "\<not> (\<not> (rl = None) \<and> \<not> (al = None))"
    and r: "r = \<lparr> name = n, kinds = split_strip kv, visibility = split_strip vv,
                  types = split_strip tv, pointer = ptr, parent_match = pm,
                  prefix = pre, suffix = suf, rule = rl, allow_rule = al \<rparr>"
    unfolding load_section_def and_then_Inr by (auto split: if_splits)
  have rf: "\<not> read_fails sec"
    using g(1,2,3,5,6,7,8,9)[THEN section_get_Inr] get_pointer_Inr[OF g(4)]
    by (simp add: read_fails_def read_keys_def)
  have "\<not> lacks_all sec \<and> \<not> has_both sec"
    using c g(6,7,8,9)[THEN section_get_Inr] by (auto simp: lacks_all_def has_both_def)
  then show ?thesis using rf c r get_pointer_Inr[OF g(4)] by (simp add: rule_ok_def)
qed

lemma load_section_Inl:
  assumes "load_section n sec = Inl e"
  shows "(\<exists>k ie. k \<in> set read_keys \<and> map_of sec k = Some (Inl ie) \<and> e = InterpolationError ie)
     \<or> (bad_pointer sec \<and> (\<exists>v. map_of sec ''pointer'' = Some (Inr v)
                               \<and> e = ValueError (''Not a boolean: '' @ v)))
     \<or> (\<not> read_fails sec \<and> \<not> bad_pointer sec \<and> (lacks_all sec \<or> has_both sec)
         \<and> (\<exists>m. e = Exception m \<and> contains m n))"
proof -
  have c1: "contains (''Section '' @ [CHR 0x27] @ n @ ([CHR 0x27]
                        @ '' does not have a '' @ [CHR 0x27] @ ''rule'' @ [CHR 0x27] @ '' or ''
                        @ [CHR 0x27] @ ''allow-rule'' @ [CHR 0x27] @ '' member'')) n"
    using contains_mid[of "''Section '' @ [CHR 0x27]" n] by simp
  have c2: "contains (''Section '' @ [CHR 0x27] @ n @ ([CHR 0x27]
                        @ '' may not have both a '' @ [CHR 0x27] @ ''rule'' @ [CHR 0x27]
                        @ '' and an '' @ [CHR 0x27] @ ''allow-rule'')) n"
    using contains_mid[of "''Section '' @ [CHR 0x27]" n] by simp
  have rd: "\<And>k. k \<in> set read_keys \<Longrightarrow> section_get sec k = Inl e \<Longrightarrow> ?thesis"
    by (auto simp: section_get_Inl)
  from assms consider
      (k1) "section_get sec ''kind'' = Inl e"
    | (k2) "section_get sec ''type'' = Inl e"
    | (k3) "section_get sec ''visibility'' = Inl e"
    | (k4) "get_pointer sec = Inl e"
    | (k5) "section_get sec ''parent_match'' = Inl e"
    | (k6) "section_get sec ''prefix'' = Inl e"
    | (k7) "section_get sec ''suffix'' = Inl e"
    | (k8) "section_get sec ''rule'' = Inl e"
    | (k9) "section_get sec ''allow-rule'' = Inl e"
    | (fin) kv tv vv ptr pm pre suf rl al where
       "section_get sec ''kind'' = Inr kv" "section_get sec ''type'' = Inr tv"
       "section_get sec ''visibility'' = Inr vv" "get_pointer sec = Inr ptr"
       "section_get sec ''parent_match'' = Inr pm" "section_get sec ''prefix'' = Inr pre"
       "section_get sec ''suffix'' = Inr suf" "section_get sec ''rule'' = Inr rl"
       "section_get sec ''allow-rule'' = Inr al"
       "(rl = None \<and> al = None \<and> pre = None \<and> suf = None
           \<and> e = Exception (''Section '' @ [CHR 0x27] @ n @ [CHR 0x27]
              @ '' does not have a '' @ [CHR 0x27] @ ''rule'' @ [CHR 0x27] @ '' or ''
              @ [CHR 0x27] @ ''allow-rule'' @ [CHR 0x27] @ '' member''))
        \<or> (\<not> (rl = None) \<and> \<not> (al = None)
           \<and> e = Exception (''Section '' @ [CHR 0x27] @ n @ [CHR 0x27]
              @ '' may not have both a '' @ [CHR 0x27] @ ''rule'' @ [CHR 0x27]
              @ '' and an '' @ [CHR 0x27] @ ''allow-rule''))"
    unfolding load_section_def and_then_Inl by (auto split: if_splits)
  then show ?thesis
  proof cases
    case k1 then show ?thesis using rd[of "''kind''"] by (simp add: read_keys_def)
  next
    case k2 then show ?thesis using rd[of "''type''"] by (simp add: read_keys_def)
  next
    case k3 then show ?thesis using rd[of "''visibility''"] by (simp add: read_keys_def)
  next
    case k4
    have "''pointer'' \<in> set read_keys" by (simp add: read_keys_def)
    then show ?thesis using get_pointer_Inl[OF k4] by blast
  next
    case k5 then show ?thesis using rd[of "''parent_match''"] by (simp add: read_keys_def)
  next
    case k6 then show ?thesis using rd[of "''prefix''"] by (simp add: read_keys_def)
  next
    case k7 then show ?thesis using rd[of "''suffix''"] by (simp add: read_keys_def)
  next
    case k8 then show ?thesis using rd[of "''rule''"] by (simp add: read_keys_def)
  next
    case k9 then show ?thesis using rd[of "''allow-rule''"] by (simp add: read_keys_def)
  next
    case fin
    have rf: "\<not> read_fails sec"
      using fin(1,2,3,5,6,7,8,9)[THEN section_get_Inr] get_pointer_Inr[OF fin(4)]
      by (simp add: read_fails_def read_keys_def)
    have nb: "\<not> bad_pointer sec" using get_pointer_Inr[OF fin(4)] by simp
    have "(lacks_all sec \<or> has_both sec) \<and> (\<exists>m. e = Exception m \<and> contains m n)"
      using fin(10) fin(6,7,8,9)[THEN section_get_Inr] c1 c2
      by (auto simp: lacks_all_def has_both_def)
    then show ?thesis using rf nb by blast
  qed
qed

lemma read_fails_unreadable:
  "k \<in> set read_keys \<Longrightarrow> map_of sec k = Some (Inl ie) \<Longrightarrow> read_fails sec"
  unfolding read_fails_def list_ex_iff unreadable_def by force

lemma section_items_Inr:
  "section_items sec = Inr kvs \<Longrightarrow> \<not> items_fail sec"
  by (induction sec arbitrary: kvs rule: section_items.induct)
     (auto simp: items_fail_def split: sum.splits)

lemma section_items_Inl:
  "section_items sec = Inl e \<Longrightarrow> \<exists>k ie. (k, Inl ie) \<in> set sec \<and> e = InterpolationError ie"
  by (induction sec rule: section_items.induct) (auto split: sum.splits)

lemma load_Inr:
  "load cfg rs = Inr rs' \<Longrightarrow> list_all rule_ok (rules rs) \<Longrightarrow>
     list_all rule_ok (rules rs') \<and> \<not> list_ex offending cfg"
proof (induction cfg rs rule: load.induct)
  case (1 rs)
  then show ?case by simp
next
  case (2 section_name sec rest rs)
  show ?case
  proof (cases "section_name = ''placeholders''")
    case True
    then obtain kvs where k: "section_items sec = Inr kvs"
      using 2(3) by (auto split: sum.splits)
    then show ?thesis using 2 True section_items_Inr[OF k] by (simp add: offending_def)
  next
    case False
    then obtain r where r: "load_section section_name sec = Inr r"
      using 2(3) by (auto split: sum.splits)
    then show ?thesis using 2 False load_section_Inr[OF r]
      by (simp add: offending_def)
  qed
qed

lemma load_Inl:
  "load cfg rs = Inl e \<Longrightarrow>
     \<exists>n sec. List.find offending cfg = Some (n, sec) \<and>
       ((n = ''placeholders'' \<and> (\<exists>k ie. (k, Inl ie) \<in> set sec \<and> e = InterpolationError ie))
        \<or> (n \<noteq> ''placeholders'' \<and>
            ((\<exists>k ie. k \<in> set read_keys \<and> map_of sec k = Some (Inl ie) \<and> e = InterpolationError ie)
             \<or> (bad_pointer sec \<and> (\<exists>v. map_of sec ''pointer'' = Some (Inr v)
                                       \<and> e = ValueError (''Not a boolean: '' @ v)))
             \<or> (\<not> read_fails sec \<and> \<not> bad_pointer sec \<and> (lacks_all sec \<or> has_both sec)
                 \<and> (\<exists>m. e = Exception m \<and> contains m n)))))"
proof (induction cfg rs rule: load.induct)
  case (1 rs)
  then show ?case by simp
next
  case (2 section_name sec rest rs)
  show ?case
  proof (cases "section_name = ''placeholders''")
    case True
    show ?thesis
    proof (cases "section_items sec")
      case (Inl e')
      then have "e = e'" using 2(3) True by simp
      moreover have "items_fail sec"
        using section_items_Inl[OF Inl] by (force simp: items_fail_def list_ex_iff)
      ultimately show ?thesis using section_items_Inl[OF Inl] True
        by (simp add: offending_def)
    next
      case (Inr kvs)
      then have "\<not> offending (section_name, sec)"
        using section_items_Inr[OF Inr] True by (simp add: offending_def)
      then show ?thesis using 2 True Inr by simp
    qed
  next
    case False
    show ?thesis
    proof (cases "load_section section_name sec")
      case (Inl e')
      then have e: "e = e'" using 2(3) False by simp
      note l = load_section_Inl[OF Inl]
      have "offending (section_name, sec)"
        using l False read_fails_unreadable[of _ sec]
        by (auto simp: offending_def)
      then show ?thesis using l e False by simp
    next
      case (Inr r)
      then have "\<not> offending (section_name, sec)"
        using load_section_Inr[OF Inr] False by (simp add: offending_def)
      then show ?thesis using 2 False Inr by simp
    qed
  qed
qed

text \<open>
  C7, as the code has it. Loading fails exactly when some section is offending: the
  \<open>placeholders\<close> section when one of its options cannot be interpolated; any other
  section when one of the options that the load reads cannot be interpolated, or its
  pointer is neither an integer nor a boolean token, or it lacks all of rule, allow-rule,
  prefix and suffix, or it has both a rule and an allow-rule. The error is the one of the
  first such section: the interpolation error of an option, the \<open>ValueError\<close> of
  \<open>getboolean\<close>, which quotes the value, or, when the options read and the pointer are
  in order, an exception whose message contains the section name. On success every loaded
  rule keeps to the two constraints.
\<close>

theorem load_fails_iff_offending_section:
  "((\<exists>e. RuleSet_init cfg = Inl e) = list_ex offending cfg)
   \<and> (\<forall>e. RuleSet_init cfg = Inl e \<longrightarrow>
        (\<exists>n sec. List.find offending cfg = Some (n, sec) \<and>
          ((n = ''placeholders''
            \<and> (\<exists>k ie. (k, Inl ie) \<in> set sec \<and> e = InterpolationError ie))
           \<or> (n \<noteq> ''placeholders'' \<and>
            ((\<exists>k ie. k \<in> set read_keys \<and> map_of sec k = Some (Inl ie)
                     \<and> e = InterpolationError ie)
             \<or> (bad_pointer sec \<and> (\<exists>v. map_of sec ''pointer'' = Some (Inr v)
                                       \<and> e = ValueError (''Not a boolean: '' @ v)))
             \<or> (\<not> read_fails sec \<and> \<not> bad_pointer sec \<and> (lacks_all sec \<or> has_both sec)
                 \<and> (\<exists>m. e = Exception m \<and> contains m n)))))))
   \<and> (\<forall>rs. RuleSet_init cfg = Inr rs \<longrightarrow> list_all rule_ok (rules rs))"
proof (intro conjI allI impI)
  show "(\<exists>e. RuleSet_init cfg = Inl e) = list_ex offending cfg"
  proof
    assume "\<exists>e. RuleSet_init cfg = Inl e"
    then obtain e where "load cfg \<lparr> rules = [], placeholders = [] \<rparr> = Inl e"
      by (auto simp: RuleSet_init_def)
    from load_Inl[OF this] obtain s where "List.find offending cfg = Some s" by auto
    then show "list_ex offending cfg"
      by (auto simp: find_Some_iff list_ex_iff)
  next
    assume ex: "list_ex offending cfg"
    show "\<exists>e. RuleSet_init cfg = Inl e"
    proof (cases "RuleSet_init cfg")
      case (Inl e)
      then show ?thesis by blast
    next
      case (Inr rs)
      then have "\<not> list_ex offending cfg"
        using load_Inr[of cfg "\<lparr> rules = [], placeholders = [] \<rparr>" rs]
        by (simp add: RuleSet_init_def)
      then show ?thesis using ex by simp
    qed
  qed
next
  fix e assume "RuleSet_init cfg = Inl e"
  then show "\<exists>n sec. List.find offending cfg = Some (n, sec) \<and>
          ((n = ''placeholders''
            \<and> (\<exists>k ie. (k, Inl ie) \<in> set sec \<and> e = InterpolationError ie))
           \<or> (n \<noteq> ''placeholders'' \<and>
            ((\<exists>k ie. k \<in> set read_keys \<and> map_of sec k = Some (Inl ie)
                     \<and> e = InterpolationError ie)
             \<or> (bad_pointer sec \<and> (\<exists>v. map_of sec ''pointer'' = Some (Inr v)
                                       \<and> e = ValueError (''Not a boolean: '' @ v)))
             \<or> (\<not> read_fails sec \<and> \<not> bad_pointer sec \<and> (lacks_all sec \<or> has_both sec)
                 \<and> (\<exists>m. e = Exception m \<and> contains m n)))))"
    using load_Inl[of cfg "\<lparr> rules = [], placeholders = [] \<rparr>" e]
    by (simp add: RuleSet_init_def)
next
  fix rs assume "RuleSet_init cfg = Inr rs"
  then show "list_all rule_ok (rules rs)"
    using load_Inr[of cfg "\<lparr> rules = [], placeholders = [] \<rparr>" rs]
    by (simp add: RuleSet_init_def)
qed


lemmas load_defs =
  RuleSet_init_def load_section_def and_then_def section_get_def get_pointer_def py_int_def
  int_space_def int_max_str_digits_def parse_unsigned_def digit_of_def convert_to_boolean_def
  lower_char_def Let_def

theorem load_fails_iff_offending_section_witness:
  "(\<exists>e. RuleSet_init [(''locals'', [(''kind'', Inr ''variable'')])] = Inl e)
   \<and> (\<exists>e. RuleSet_init [(''locals'', [(''rule'', Inl trailing_percent)])] = Inl e)
   \<and> (\<exists>rs. RuleSet_init [(''locals'', [(''kind'', Inr ''variable''), (''pointer'', Inr ''2''),
                                        (''rule'', Inr ''x'')])] = Inr rs
           \<and> list_all rule_ok (rules rs))"
proof -
  have a: "list_ex offending [(''locals'', [(''kind'', Inr ''variable'')])]"
    by (simp add: offending_def lacks_all_def)
  have b: "list_ex offending [(''locals'', [(''rule'', Inl trailing_percent)])]"
    by (simp add: offending_def read_fails_def read_keys_def unreadable_def)
  have c: "\<exists>rs. RuleSet_init [(''locals'', [(''kind'', Inr ''variable''), (''pointer'', Inr ''2''),
                                        (''rule'', Inr ''x'')])] = Inr rs"
    by (simp add: load_defs)
  show ?thesis
    using a b c
      load_fails_iff_offending_section [of "[(''locals'', [(''kind'', Inr ''variable'')])]"]
      load_fails_iff_offending_section [of "[(''locals'', [(''rule'', Inl trailing_percent)])]"]
      load_fails_iff_offending_section [of "[(''locals'', [(''kind'', Inr ''variable''),
        (''pointer'', Inr ''2''), (''rule'', Inr ''x'')])]"]
    by auto
qed

text \<open>
  C7 as the claim words it fails three times: a pointer that cannot be read raises an
  error that quotes the value and does not name the section; the \<open>placeholders\<close> section
  loads although it has none of the four members; and a section with a rule and a pointer
  in order fails to load when the value of its rule ends in \<open>%\<close>.
\<close>

theorem load_error_counterexample:
  "RuleSet_init [(''vars'', [(''kind'', Inr ''variable''), (''pointer'', Inr ''maybe''),
                            (''rule'', Inr ''x'')])]
     = Inl (ValueError ''Not a boolean: maybe'')
   \<and> \<not> contains ''Not a boolean: maybe'' ''vars''
   \<and> lacks_all [(''word'', Inr ''[a-z]+'')]
   \<and> RuleSet_init [(''placeholders'', [(''word'', Inr ''[a-z]+'')])]
     = Inr \<lparr> rules = [], placeholders = [(''p:word'', ''[a-z]+'')] \<rparr>
   \<and> \<not> lacks_all [(''rule'', Inl trailing_percent)]
   \<and> \<not> has_both [(''rule'', Inl trailing_percent)]
   \<and> \<not> bad_pointer [(''rule'', Inl trailing_percent)]
   \<and> RuleSet_init [(''a'', [(''rule'', Inl trailing_percent)])]
     = Inl (InterpolationError trailing_percent)"
  by (simp add: load_defs contains_def upt_rec lacks_all_def has_both_def bad_pointer_def
      strip_def isspace_def)


subsection \<open>Selectors and the stored rule\<close>

declare expand_from.simps [simp del]

lemma expand_from_no_alias:
  "\<not> list_ex is_alias ks \<Longrightarrow> expand_from i ks = ks"
proof (induction i ks rule: expand_from.induct)
  case (1 i rule_kinds)
  show ?case
  proof (cases "i < length rule_kinds")
    case True
    then have "\<not> is_alias (rule_kinds ! i)" using 1(3) by (auto simp: list_ex_iff)
    then have n: "map_of KIND_EXPANSION (rule_kinds ! i) = None"
      by (simp add: is_alias_def split: option.splits)
    then show ?thesis using 1(1)[OF True n] 1(3) True
      by (subst expand_from.simps) simp
  next
    case False
    then show ?thesis by (subst expand_from.simps) simp
  qed
qed

lemma expansion_length:
  "map_of KIND_EXPANSION a = Some ex \<Longrightarrow> 2 \<le> length ex"
  by (auto simp: KIND_EXPANSION_def split: if_splits)

lemma expand_from_length:
  "length ks \<le> length (expand_from i ks)"
proof (induction i ks rule: expand_from.induct)
  case (1 i rule_kinds)
  show ?case
  proof (cases "i < length rule_kinds")
    case False
    then show ?thesis by (subst expand_from.simps) simp
  next
    case True
    show ?thesis
    proof (cases "map_of KIND_EXPANSION (rule_kinds ! i)")
      case None
      then show ?thesis using 1(1)[OF True None] True by (subst expand_from.simps) simp
    next
      case (Some ex)
      have "length (remove1 (rule_kinds ! i) (rule_kinds @ ex)) = length rule_kinds + length ex - 1"
        using True by (simp add: length_remove1)
      then have "length rule_kinds < length (remove1 (rule_kinds ! i) (rule_kinds @ ex))"
        using expansion_length[OF Some] by simp
      then show ?thesis using 1(2)[OF True Some] True Some
        by (subst expand_from.simps) simp
    qed
  qed
qed

lemma expand_from_grows:
  "\<exists>j. i \<le> j \<and> j < length ks \<and> is_alias (ks ! j) \<Longrightarrow> length ks < length (expand_from i ks)"
proof (induction i ks rule: expand_from.induct)
  case (1 i rule_kinds)
  from 1(3) obtain j where j: "i \<le> j" "j < length rule_kinds" "is_alias (rule_kinds ! j)"
    by blast
  then have True: "i < length rule_kinds" by simp
  show ?case
  proof (cases "map_of KIND_EXPANSION (rule_kinds ! i)")
    case None
    then have "\<not> is_alias (rule_kinds ! i)" by (simp add: is_alias_def)
    then have "Suc i \<le> j" using j by (cases "i = j") auto
    then have "\<exists>j. Suc i \<le> j \<and> j < length rule_kinds \<and> is_alias (rule_kinds ! j)"
      using j by blast
    then show ?thesis using 1(1)[OF True None] True None by (subst expand_from.simps) simp
  next
    case (Some ex)
    have "length (remove1 (rule_kinds ! i) (rule_kinds @ ex)) = length rule_kinds + length ex - 1"
      using True by (simp add: length_remove1)
    then have "length rule_kinds < length (remove1 (rule_kinds ! i) (rule_kinds @ ex))"
      using expansion_length[OF Some] by simp
    moreover have "length (remove1 (rule_kinds ! i) (rule_kinds @ ex))
        \<le> length (expand_from (Suc i) (remove1 (rule_kinds ! i) (rule_kinds @ ex)))"
      by (rule expand_from_length)
    ultimately show ?thesis using True Some by (subst expand_from.simps) simp
  qed
qed

lemma rule_applies_snd:
  "snd (rule_applies L c r ck vis pl) = r\<lparr>kinds := map_option (expand_from 0) (kinds r)\<rparr>"
  by (simp add: rule_applies_def Let_def)

text \<open>
  C4, as the code has it. The selector test gives the rule back with every field but
  \<open>kinds\<close> as it was, and \<open>kinds\<close> as the expansion loop left the list: a rule without
  kinds or without an alias among them is unchanged, and a rule with an alias among its
  kinds keeps a longer list, which is what the next declaration finds.
\<close>

theorem rule_applies_keeps_expansion:
  "snd (rule_applies L c r ck vis pl) = r\<lparr>kinds := map_option (expand_from 0) (kinds r)\<rparr>
   \<and> (kinds r = None \<longrightarrow> snd (rule_applies L c r ck vis pl) = r)
   \<and> (\<forall>ks. kinds r = Some ks \<and> \<not> list_ex is_alias ks \<longrightarrow> snd (rule_applies L c r ck vis pl) = r)
   \<and> (\<forall>ks. kinds r = Some ks \<and> list_ex is_alias ks \<longrightarrow>
        (\<exists>ks'. kinds (snd (rule_applies L c r ck vis pl)) = Some ks' \<and> length ks < length ks'))"
proof (intro conjI allI impI)
  show "snd (rule_applies L c r ck vis pl) = r\<lparr>kinds := map_option (expand_from 0) (kinds r)\<rparr>"
    by (rule rule_applies_snd)
next
  assume "kinds r = None"
  then show "snd (rule_applies L c r ck vis pl) = r" by (simp add: rule_applies_snd)
next
  fix ks assume "kinds r = Some ks \<and> \<not> list_ex is_alias ks"
  then show "snd (rule_applies L c r ck vis pl) = r"
    by (simp add: rule_applies_snd expand_from_no_alias)
next
  fix ks assume a: "kinds r = Some ks \<and> list_ex is_alias ks"
  then obtain j where "j < length ks" "is_alias (ks ! j)"
    by (auto simp: list_ex_iff in_set_conv_nth)
  then have "length ks < length (expand_from 0 ks)"
    using expand_from_grows[of 0 ks] by blast
  then show "\<exists>ks'. kinds (snd (rule_applies L c r ck vis pl)) = Some ks' \<and> length ks < length ks'"
    using a by (simp add: rule_applies_snd)
qed

theorem rule_applies_keeps_expansion_witness:
  "snd (rule_applies word_library (local_variable ''Widget'' int_type)
          ((bare_rule ''tags'')\<lparr>kinds := Some [''tag'']\<rparr>) ''variable'' (Some ''local'') (Some 0))
     = (bare_rule ''tags'')\<lparr>kinds := Some [''struct_tag'', ''enum_tag'', ''union_tag'']\<rparr>
   \<and> snd (rule_applies word_library (local_variable ''Widget'' int_type)
          ((bare_rule ''vars'')\<lparr>kinds := Some [''variable'']\<rparr>) ''variable'' (Some ''local'') (Some 0))
     = (bare_rule ''vars'')\<lparr>kinds := Some [''variable'']\<rparr>"
proof -
  have a: "expand_from 0 [''tag''] = [''struct_tag'', ''enum_tag'', ''union_tag'']"
    by (simp add: expand_from.simps KIND_EXPANSION_def)
  have b: "\<not> list_ex is_alias [''variable'']"
    by (simp add: is_alias_def KIND_EXPANSION_def)
  have t: "snd (rule_applies word_library (local_variable ''Widget'' int_type)
          ((bare_rule ''tags'')\<lparr>kinds := Some [''tag'']\<rparr>) ''variable'' (Some ''local'') (Some 0))
     = (bare_rule ''tags'')\<lparr>kinds := Some [''struct_tag'', ''enum_tag'', ''union_tag'']\<rparr>"
    using a rule_applies_keeps_expansion [of word_library "local_variable ''Widget'' int_type"
        "(bare_rule ''tags'')\<lparr>kinds := Some [''tag'']\<rparr>" "''variable''" "Some ''local''" "Some 0",
        THEN conjunct1]
    by simp
  have v: "snd (rule_applies word_library (local_variable ''Widget'' int_type)
          ((bare_rule ''vars'')\<lparr>kinds := Some [''variable'']\<rparr>) ''variable'' (Some ''local'') (Some 0))
     = (bare_rule ''vars'')\<lparr>kinds := Some [''variable'']\<rparr>"
    using b rule_applies_keeps_expansion [of word_library "local_variable ''Widget'' int_type"
        "(bare_rule ''vars'')\<lparr>kinds := Some [''variable'']\<rparr>" "''variable''" "Some ''local''" "Some 0",
        THEN conjunct2, THEN conjunct2, THEN conjunct1]
    by simp
  show ?thesis using t v by simp
qed

text \<open>
  C4 as the claim words it fails: after one declaration has been evaluated, the stored
  rule with \<open>kind = tag\<close> lists the three tag kinds.
\<close>

theorem stored_rule_changes_counterexample:
  "process_node word_library (local_variable ''Widget'' int_type)
     (Processor_init \<lparr> rules = [(bare_rule ''tags'')\<lparr>kinds := Some [''tag''], rule := Some ''x''\<rparr>],
                       placeholders = [] \<rparr>)
   = Inr (True,
       Processor_init \<lparr> rules = [(bare_rule ''tags'')\<lparr>kinds :=
                                    Some [''struct_tag'', ''enum_tag'', ''union_tag''],
                                    rule := Some ''x''\<rparr>],
                         placeholders = [] \<rparr>)"
proof -
  have a: "expand_from 0 [''tag''] = [''struct_tag'', ''enum_tag'', ''union_tag'']"
    by (simp add: expand_from.simps KIND_EXPANSION_def)
  show ?thesis
    by (simp add: process_node_def local_variable_def get_config_kind_def Processor_init_def
        rule_applies_def bare_rule_def a keep_rule_def Let_def)
qed


subsection \<open>The pointer selector\<close>

text \<open>
  C6. For a declaration with pointer level \<open>d\<close>, a rule with \<open>pointer = true\<close> applies
  exactly when the same rule without a pointer selector applies and \<open>d\<close> is at least 1,
  and a rule with \<open>pointer = n\<close> exactly when the rule without the selector applies and
  \<open>d\<close> is \<open>n\<close>.
\<close>

theorem pointer_selector:
  assumes "pointer_level_of c = Some d"
  shows "fst (rule_applies L c (r\<lparr>pointer := Some (PBool True)\<rparr>) ck vis (pointer_level_of c))
           = (fst (rule_applies L c (r\<lparr>pointer := None\<rparr>) ck vis (pointer_level_of c)) \<and> 1 \<le> d)
       \<and> fst (rule_applies L c (r\<lparr>pointer := Some (PInt n)\<rparr>) ck vis (pointer_level_of c))
           = (fst (rule_applies L c (r\<lparr>pointer := None\<rparr>) ck vis (pointer_level_of c)) \<and> int d = n)"
  using assms
  by (auto simp: rule_applies_def Let_def pointer_matches_def split: option.splits)

theorem pointer_selector_witness:
  "pointer_level_of (local_variable ''pp'' (Pointer ''int **'' (Pointer ''int *'' int_type))) = Some 2
   \<and> fst (rule_applies word_library
            (local_variable ''pp'' (Pointer ''int **'' (Pointer ''int *'' int_type)))
            ((bare_rule ''ptrs'')\<lparr>pointer := Some (PBool True)\<rparr>) ''variable'' (Some ''local'')
            (pointer_level_of (local_variable ''pp'' (Pointer ''int **'' (Pointer ''int *'' int_type)))))
   \<and> fst (rule_applies word_library
            (local_variable ''pp'' (Pointer ''int **'' (Pointer ''int *'' int_type)))
            ((bare_rule ''ptrs'')\<lparr>pointer := Some (PInt 2)\<rparr>) ''variable'' (Some ''local'')
            (pointer_level_of (local_variable ''pp'' (Pointer ''int **'' (Pointer ''int *'' int_type)))))
   \<and> \<not> fst (rule_applies word_library (local_variable ''n'' int_type)
            ((bare_rule ''ptrs'')\<lparr>pointer := Some (PBool True)\<rparr>) ''variable'' (Some ''local'')
            (pointer_level_of (local_variable ''n'' int_type)))"
proof -
  have a: "pointer_level_of (local_variable ''pp'' (Pointer ''int **'' (Pointer ''int *'' int_type)))
      = Some 2"
    by (simp add: pointer_level_of_def local_variable_def int_type_def)
  have b: "pointer_level_of (local_variable ''n'' int_type) = Some 0"
    by (simp add: pointer_level_of_def local_variable_def int_type_def)
  have c: "\<And>c pl. fst (rule_applies word_library c ((bare_rule ''ptrs'')\<lparr>pointer := None\<rparr>)
      ''variable'' (Some ''local'') pl)"
    by (simp add: rule_applies_def bare_rule_def Let_def split: option.splits)
  show ?thesis
    using a b c
      pointer_selector [OF a, of word_library "bare_rule ''ptrs''" "''variable''" "Some ''local''" 2]
      pointer_selector [OF b, of word_library "bare_rule ''ptrs''" "''variable''" "Some ''local''" 2]
    by simp
qed


subsection \<open>Rules with affixes only\<close>

lemmas eval_defs =
  process_node_def local_variable_def get_config_kind_def Processor_init_def rule_applies_def
  bare_rule_def keep_rule_def Let_def test_rule_def test_affixes_def test_affix_rules_def
  match_rule_def parent_vars_def py_or_def truthy_def sub_placeholders_def word_library_def
  word_search_def startswith_def ignore_key_def cursor_location_def print_def mark_used_def
  int_type_def pointer_level_of_def

lemma rule_applies_spelling:
  "rule_applies L (c\<lparr>spelling := n\<rparr>) r ck vis pl = rule_applies L c r ck vis pl"
  by (simp add: rule_applies_def Let_def cong: if_cong option.case_cong)

lemma rule_applies_patterns:
  "rule_applies L c r0 ck vis pl = (b, r) \<Longrightarrow>
     rule r = rule r0 \<and> allow_rule r = allow_rule r0 \<and> prefix r = prefix r0 \<and> suffix r = suffix r0"
  by (auto simp: rule_applies_def Let_def split: if_splits)

lemma process_rules_affix_only:
  assumes "\<forall>r\<in>set rs. fst (rule_applies L c r ck vis pl) \<longrightarrow> rule r = None \<and> allow_rule r = None"
  shows "process_rules L (c\<lparr>spelling := n\<rparr>) ck vis pl rs pre suf vars P
           = Inr (True, map (\<lambda>r. snd (rule_applies L c r ck vis pl)) rs, P)"
  using assms
proof (induction rs arbitrary: pre suf)
  case Nil
  then show ?case by simp
next
  case (Cons r0 rs)
  obtain b r where br: "rule_applies L c r0 ck vis pl = (b, r)" by (cases "rule_applies L c r0 ck vis pl")
  have ih: "\<And>pre suf. process_rules L (c\<lparr>spelling := n\<rparr>) ck vis pl rs pre suf vars P
           = Inr (True, map (\<lambda>r. snd (rule_applies L c r ck vis pl)) rs, P)"
    using Cons by simp
  show ?case
  proof (cases b)
    case False
    then show ?thesis using br ih by (simp add: rule_applies_spelling keep_rule_def)
  next
    case True
    then have "rule r0 = None \<and> allow_rule r0 = None" using Cons(2) br by simp
    then have "rule r = None \<and> allow_rule r = None" using rule_applies_patterns[OF br] by simp
    then show ?thesis using br ih True by (simp add: rule_applies_spelling keep_rule_def Let_def)
  qed
qed

text \<open>
  C3. When no rule whose selectors match the declaration has a rule or an allow-rule, the
  declaration passes: \<open>_process_node\<close> returns \<open>True\<close> and neither prints nor marks an
  ignore comment, and the loop does so whatever the name of the declaration, the library
  and the prefix and suffix rules collected are. The affix patterns are tested in
  \<open>_test_rule\<close> only, which the loop calls for a rule with a rule or an allow-rule.
\<close>

theorem affix_only_rules_pass:
  assumes "is_from_main_file c"
    and "get_config_kind c = Inr (Some ck, vis, msgs)"
    and "\<forall>r\<in>set (rules (rule_set P)).
           fst (rule_applies L c r ck vis (pointer_level_of c)) \<longrightarrow> rule r = None \<and> allow_rule r = None"
  shows "process_node L c P
           = Inr (True, P\<lparr>out := out P @ msgs,
                          rule_set := (rule_set P)\<lparr>rules :=
                            map (\<lambda>r. snd (rule_applies L c r ck vis (pointer_level_of c)))
                              (rules (rule_set P))\<rparr>\<rparr>)
         \<and> (\<forall>n pre suf vars Q.
              process_rules L (c\<lparr>spelling := n\<rparr>) ck vis (pointer_level_of c) (rules (rule_set P))
                pre suf vars Q
              = Inr (True, map (\<lambda>r. snd (rule_applies L c r ck vis (pointer_level_of c)))
                             (rules (rule_set P)), Q))"
proof -
  have a: "\<And>n pre suf vars Q.
      process_rules L (c\<lparr>spelling := n\<rparr>) ck vis (pointer_level_of c) (rules (rule_set P))
                pre suf vars Q
              = Inr (True, map (\<lambda>r. snd (rule_applies L c r ck vis (pointer_level_of c)))
                             (rules (rule_set P)), Q)"
    using process_rules_affix_only[OF assms(3)] by simp
  have "c\<lparr>spelling := spelling c\<rparr> = c" by simp
  then have b: "\<And>pre suf vars Q.
      process_rules L c ck vis (pointer_level_of c) (rules (rule_set P)) pre suf vars Q
              = Inr (True, map (\<lambda>r. snd (rule_applies L c r ck vis (pointer_level_of c)))
                             (rules (rule_set P)), Q)"
    using a[of "spelling c"] by simp
  show ?thesis using a assms(1,2) by (simp add: process_node_def b)
qed

theorem affix_only_rules_pass_witness:
  "process_node word_library (local_variable ''Widget'' int_type)
     (Processor_init \<lparr> rules = [(bare_rule ''tee'')\<lparr>prefix := Some ''T_''\<rparr>], placeholders = [] \<rparr>)
   = Inr (True,
       Processor_init \<lparr> rules = [(bare_rule ''tee'')\<lparr>prefix := Some ''T_''\<rparr>], placeholders = [] \<rparr>)"
proof -
  let ?c = "local_variable ''Widget'' int_type"
  let ?P = "Processor_init \<lparr> rules = [(bare_rule ''tee'')\<lparr>prefix := Some ''T_''\<rparr>], placeholders = [] \<rparr>"
  have a: "is_from_main_file ?c" by (simp add: local_variable_def)
  have b: "get_config_kind ?c = Inr (Some ''variable'', Some ''local'', [])"
    by (simp add: get_config_kind_def local_variable_def)
  have c: "\<forall>r\<in>set (rules (rule_set ?P)).
           fst (rule_applies word_library ?c r ''variable'' (Some ''local'') (pointer_level_of ?c))
             \<longrightarrow> rule r = None \<and> allow_rule r = None"
    by (simp add: Processor_init_def bare_rule_def)
  have d: "snd (rule_applies word_library ?c ((bare_rule ''tee'')\<lparr>prefix := Some ''T_''\<rparr>) ''variable''
             (Some ''local'') (pointer_level_of ?c)) = (bare_rule ''tee'')\<lparr>prefix := Some ''T_''\<rparr>"
    by (simp add: rule_applies_def bare_rule_def Let_def)
  show ?thesis using affix_only_rules_pass [OF a b c, THEN conjunct1] d
    by (simp add: Processor_init_def)
qed


subsection \<open>A matched allow-rule\<close>

text \<open>
  C5. When the selectors of a rule match, no affix failure was recorded in its test and its
  allow pattern (or its rule pattern) matches the name without its affixes, the loop ends
  there with \<open>True\<close>: the rules after it are returned as they were, not evaluated.
\<close>

theorem matched_allow_rule_stops:
  assumes "rule_applies L c r0 ck vis pl = (True, r)"
    and "(rule r = None \<and> allow_rule r = Some a) \<or> (rule r = Some a \<and> a \<noteq> [])"
    and "test_affixes L c r (if truthy (prefix r) then pre @ [r] else pre)
           (if truthy (suffix r) then suf @ [r] else suf) vars P = Inr (ep, es, nm, True, P1)"
    and "parent_vars L c r vars P1 = Inr (vars', P2)"
    and "re_fullmatch L (sub_placeholders L P2 a vars') nm"
  shows "process_rules L c ck vis pl (r0 # rest) pre suf vars P = Inr (True, r # rest, P2)"
proof -
  have t: "py_or (rule r) (allow_rule r) = Some a \<and> py_or (Some a) (allow_rule r) = Some a"
    using assms(2) by (auto simp: py_or_def)
  have n: "\<not> (rule r = None \<and> allow_rule r = None)" using assms(2) by auto
  have "test_rule L c r (if truthy (prefix r) then pre @ [r] else pre)
           (if truthy (suffix r) then suf @ [r] else suf) vars P = Inr (Some True, vars', P2)"
    using assms(3,4,5) t by (simp add: test_rule_def match_rule_def)
  then show ?thesis using assms(1) n by (auto simp: Let_def)
qed

theorem matched_allow_rule_stops_witness:
  "process_rules word_library (local_variable ''T_Widget'' int_type) ''variable'' (Some ''local'') (Some 0)
     [(bare_rule ''widgets'')\<lparr>prefix := Some ''T_'', allow_rule := Some ''Widget''\<rparr>,
      (bare_rule ''strict'')\<lparr>rule := Some ''x''\<rparr>] [] [] Map.empty
     (Processor_init \<lparr> rules = [], placeholders = [] \<rparr>)
   = Inr (True,
       [(bare_rule ''widgets'')\<lparr>prefix := Some ''T_'', allow_rule := Some ''Widget''\<rparr>,
        (bare_rule ''strict'')\<lparr>rule := Some ''x''\<rparr>],
       Processor_init \<lparr> rules = [], placeholders = [] \<rparr>)"
proof -
  let ?c = "local_variable ''T_Widget'' int_type"
  let ?r = "(bare_rule ''widgets'')\<lparr>prefix := Some ''T_'', allow_rule := Some ''Widget''\<rparr>"
  let ?P = "Processor_init \<lparr> rules = [], placeholders = [] \<rparr>"
  have a: "rule_applies word_library ?c ?r ''variable'' (Some ''local'') (Some 0) = (True, ?r)"
    by (simp add: rule_applies_def bare_rule_def Let_def)
  have b: "(rule ?r = None \<and> allow_rule ?r = Some ''Widget'') \<or> (rule ?r = Some ''Widget'' \<and> ''Widget'' \<noteq> [])"
    by (simp add: bare_rule_def)
  have c: "test_affixes word_library ?c ?r (if truthy (prefix ?r) then [] @ [?r] else [])
           (if truthy (suffix ?r) then [] @ [?r] else []) Map.empty ?P
         = Inr (Some ''T_'', None, ''Widget'', True, ?P)"
    by (simp add: eval_defs)
  have d: "parent_vars word_library ?c ?r Map.empty ?P = Inr (Map.empty, ?P)"
    by (simp add: parent_vars_def local_variable_def)
  have e: "re_fullmatch word_library (sub_placeholders word_library ?P ''Widget'' Map.empty) ''Widget''"
    by (simp add: sub_placeholders_def word_library_def Processor_init_def)
  show ?thesis
    using matched_allow_rule_stops [OF a b c d e, of "[(bare_rule ''strict'')\<lparr>rule := Some ''x''\<rparr>]"]
    by simp
qed


subsection \<open>Ignore comments\<close>

lemma mark_used_lookup:
  "map_of (ignore_comments (mark_used c ic P)) (ignore_key c) = Some (ic\<lparr>used := True\<rparr>)"
  by (simp add: mark_used_def update_conv')

text \<open>
  C2, as the code has it. A rule pattern or an affix pattern that does not match is
  suppressed exactly when an ignore comment is registered for the line of the declaration,
  whatever its \<open>used\<close> flag is: the test goes on as if the pattern had matched and the
  comment is marked used. The comment stays registered, so it suppresses the next failure
  on that line as well.
\<close>

theorem suppressed_iff_ignore_comment:
  "(\<not> re_fullmatch L rx nm \<longrightarrow>
      ((\<exists>P'. match_rule L c r rx ep es nm True P = Inr (Some True, P'))
         = (\<exists>ic. map_of (ignore_comments P) (ignore_key c) = Some ic))
      \<and> (\<forall>ic. map_of (ignore_comments P) (ignore_key c) = Some ic \<longrightarrow>
            match_rule L c r rx ep es nm True P = Inr (Some True, mark_used c ic P)
            \<and> map_of (ignore_comments (mark_used c ic P)) (ignore_key c) = Some (ic\<lparr>used := True\<rparr>)))
   \<and> (affix_rules \<noteq> [] \<and> expand_affixes L P vars is_prefix affix_rules = Inr ex
        \<and> re_search L (if is_prefix then ''^'' @ ex else ex @ ''$'') nm = None \<longrightarrow>
      ((\<exists>e n' P'. test_affix_rules L c vars affix_rules is_prefix nm True P = Inr (e, n', True, P'))
         = (\<exists>ic. map_of (ignore_comments P) (ignore_key c) = Some ic))
      \<and> (\<forall>ic. map_of (ignore_comments P) (ignore_key c) = Some ic \<longrightarrow>
            test_affix_rules L c vars affix_rules is_prefix nm True P
              = Inr (Some ex, nm, True, mark_used c ic P)))"
  by (auto simp: match_rule_def test_affix_rules_def mark_used_lookup Let_def
        split: option.splits if_splits)

theorem suppressed_iff_ignore_comment_witness:
  "\<not> re_fullmatch word_library ''x'' ''Widget''
   \<and> match_rule word_library (local_variable ''Widget'' int_type)
        ((bare_rule ''words'')\<lparr>rule := Some ''x''\<rparr>) ''x'' None None ''Widget'' True
        \<lparr> rule_set = \<lparr> rules = [], placeholders = [] \<rparr>,
          ignore_comments = [((''main.c'', 3), \<lparr>token = ignore_token, used = True\<rparr>)],
          has_failures = False, out = [] \<rparr>
      = Inr (Some True,
          \<lparr> rule_set = \<lparr> rules = [], placeholders = [] \<rparr>,
            ignore_comments = [((''main.c'', 3), \<lparr>token = ignore_token, used = True\<rparr>)],
            has_failures = False, out = [] \<rparr>)
   \<and> re_search word_library ''^T_'' ''Widget'' = None
   \<and> test_affix_rules word_library (local_variable ''Widget'' int_type) Map.empty
        [(bare_rule ''tee'')\<lparr>prefix := Some ''T_''\<rparr>] True ''Widget'' True
        \<lparr> rule_set = \<lparr> rules = [], placeholders = [] \<rparr>,
          ignore_comments = [((''main.c'', 3), \<lparr>token = ignore_token, used = True\<rparr>)],
          has_failures = False, out = [] \<rparr>
      = Inr (Some ''T_'', ''Widget'', True,
          \<lparr> rule_set = \<lparr> rules = [], placeholders = [] \<rparr>,
            ignore_comments = [((''main.c'', 3), \<lparr>token = ignore_token, used = True\<rparr>)],
            has_failures = False, out = [] \<rparr>)"
proof -
  let ?P = "\<lparr> rule_set = \<lparr> rules = [], placeholders = [] \<rparr>,
          ignore_comments = [((''main.c'', 3), \<lparr>token = ignore_token, used = True\<rparr>)],
          has_failures = False, out = [] \<rparr>"
  let ?c = "local_variable ''Widget'' int_type"
  have a: "\<not> re_fullmatch word_library ''x'' ''Widget''" by (simp add: word_library_def)
  have b: "map_of (ignore_comments ?P) (ignore_key ?c) = Some \<lparr>token = ignore_token, used = True\<rparr>"
    by (simp add: ignore_key_def local_variable_def)
  have m: "mark_used ?c \<lparr>token = ignore_token, used = True\<rparr> ?P = ?P"
    by (simp add: mark_used_def ignore_key_def local_variable_def)
  have e: "expand_affixes word_library ?P Map.empty True [(bare_rule ''tee'')\<lparr>prefix := Some ''T_''\<rparr>]
      = Inr ''T_''"
    by (simp add: bare_rule_def sub_placeholders_def word_library_def)
  have s: "re_search word_library ''^T_'' ''Widget'' = None"
    by (simp add: word_library_def word_search_def startswith_def)
  note t = suppressed_iff_ignore_comment [where L = word_library and rx = "''x''" and nm = "''Widget''"
      and c = ?c and P = ?P and r = "(bare_rule ''words'')\<lparr>rule := Some ''x''\<rparr>" and ep = None
      and es = None and affix_rules = "[(bare_rule ''tee'')\<lparr>prefix := Some ''T_''\<rparr>]"
      and is_prefix = True and vars = Map.empty and ex = "''T_''"]
  show ?thesis using a b m e s t by simp
qed

text \<open>
  C2 as the claim words it fails: the ignore comment of line 3 has been used already, and
  the failing rule \<open>x\<close> is suppressed all the same. So are both of two variables declared
  on line 3, the second after the first has marked the comment used.
\<close>

theorem used_comment_suppresses_counterexample:
  "\<not> re_fullmatch word_library ''x'' ''Widget''
   \<and> process_node word_library (local_variable ''Widget'' int_type)
       \<lparr> rule_set = \<lparr> rules = [(bare_rule ''words'')\<lparr>rule := Some ''x''\<rparr>], placeholders = [] \<rparr>,
         ignore_comments = [((''main.c'', 3), \<lparr>token = ignore_token, used = True\<rparr>)],
         has_failures = False, out = [] \<rparr>
     = Inr (True,
       \<lparr> rule_set = \<lparr> rules = [(bare_rule ''words'')\<lparr>rule := Some ''x''\<rparr>], placeholders = [] \<rparr>,
         ignore_comments = [((''main.c'', 3), \<lparr>token = ignore_token, used = True\<rparr>)],
         has_failures = False, out = [] \<rparr>)
   \<and> process_nodes word_library
       [local_variable ''Widget'' int_type, local_variable ''Gadget'' int_type]
       \<lparr> rule_set = \<lparr> rules = [(bare_rule ''words'')\<lparr>rule := Some ''x''\<rparr>], placeholders = [] \<rparr>,
         ignore_comments = [((''main.c'', 3), \<lparr>token = ignore_token, used = False\<rparr>)],
         has_failures = False, out = [] \<rparr>
     = Inr
       \<lparr> rule_set = \<lparr> rules = [(bare_rule ''words'')\<lparr>rule := Some ''x''\<rparr>], placeholders = [] \<rparr>,
         ignore_comments = [((''main.c'', 3), \<lparr>token = ignore_token, used = True\<rparr>)],
         has_failures = False, out = [] \<rparr>"
  by (simp add: eval_defs)


subsection \<open>Rules with an empty affix\<close>

lemma test_affixes_empty_prefix:
  "prefix r = Some [] \<Longrightarrow>
     test_affixes L c r pre suf vars P = test_affixes L c r pre2 suf vars P"
  by (simp add: test_affixes_def)

lemma test_affixes_empty_suffix:
  "suffix r = Some [] \<Longrightarrow>
     test_affixes L c r pre suf vars P = test_affixes L c r pre suf2 vars P"
  by (simp add: test_affixes_def cong: sum.case_cong)

text \<open>
  C8, as the code has it. A rule whose prefix (or suffix) is the empty string is tested
  without the accumulated prefix (or suffix): its test is the one with no prefix rules
  (no suffix rules) at all. The rule adds nothing to the accumulation, which goes on
  unchanged to the rules after it.
\<close>

theorem empty_affix_leaves_accumulated_untested:
  "(prefix r = Some [] \<longrightarrow>
      test_rule L c r pre suf vars P = test_rule L c r [] suf vars P)
   \<and> (suffix r = Some [] \<longrightarrow>
      test_rule L c r pre suf vars P = test_rule L c r pre [] vars P)
   \<and> (rule_applies L c r0 ck vis pl = (True, r) \<and> prefix r = Some []
       \<and> test_rule L c r [] (if truthy (suffix r) then suf @ [r] else suf) vars P = Inr (None, vars', P')
      \<longrightarrow> process_rules L c ck vis pl (r0 # rest) pre suf vars P
           = keep_rule r (process_rules L c ck vis pl rest pre
                            (if truthy (suffix r) then suf @ [r] else suf) vars' P'))
   \<and> (rule_applies L c r0 ck vis pl = (True, r) \<and> suffix r = Some []
       \<and> test_rule L c r (if truthy (prefix r) then pre @ [r] else pre) [] vars P = Inr (None, vars', P')
      \<longrightarrow> process_rules L c ck vis pl (r0 # rest) pre suf vars P
           = keep_rule r (process_rules L c ck vis pl rest
                            (if truthy (prefix r) then pre @ [r] else pre) suf vars' P'))"
proof (intro conjI impI)
  assume "prefix r = Some []"
  then show "test_rule L c r pre suf vars P = test_rule L c r [] suf vars P"
    using test_affixes_empty_prefix[of r L c pre suf vars P "[]"] by (simp add: test_rule_def)
next
  assume "suffix r = Some []"
  then show "test_rule L c r pre suf vars P = test_rule L c r pre [] vars P"
    using test_affixes_empty_suffix[of r L c pre suf vars P "[]"] by (simp add: test_rule_def)
next
  assume a: "rule_applies L c r0 ck vis pl = (True, r) \<and> prefix r = Some []
       \<and> test_rule L c r [] (if truthy (suffix r) then suf @ [r] else suf) vars P = Inr (None, vars', P')"
  then have t: "test_rule L c r pre (if truthy (suffix r) then suf @ [r] else suf) vars P = Inr (None, vars', P')"
    using test_affixes_empty_prefix[of r L c pre "(if truthy (suffix r) then suf @ [r] else suf)" vars P "[]"]
    by (simp add: test_rule_def)
  have n: "\<not> (rule r = None \<and> allow_rule r = None)"
    using a by (auto simp: test_rule_def py_or_def split: sum.splits prod.splits option.splits)
  show "process_rules L c ck vis pl (r0 # rest) pre suf vars P
           = keep_rule r (process_rules L c ck vis pl rest pre
                            (if truthy (suffix r) then suf @ [r] else suf) vars' P')"
  proof -
    have tp: "\<not> truthy (prefix r)" using a by (simp add: truthy_def)
    show ?thesis using a t n tp by (auto simp: Let_def)
  qed
next
  assume a: "rule_applies L c r0 ck vis pl = (True, r) \<and> suffix r = Some []
       \<and> test_rule L c r (if truthy (prefix r) then pre @ [r] else pre) [] vars P = Inr (None, vars', P')"
  then have t: "test_rule L c r (if truthy (prefix r) then pre @ [r] else pre) suf vars P = Inr (None, vars', P')"
    using test_affixes_empty_suffix[of r L c "(if truthy (prefix r) then pre @ [r] else pre)" suf vars P "[]"]
    by (simp add: test_rule_def)
  have n: "\<not> (rule r = None \<and> allow_rule r = None)"
    using a by (auto simp: test_rule_def py_or_def split: sum.splits prod.splits option.splits)
  show "process_rules L c ck vis pl (r0 # rest) pre suf vars P
           = keep_rule r (process_rules L c ck vis pl rest
                            (if truthy (prefix r) then pre @ [r] else pre) suf vars' P')"
  proof -
    have ts: "\<not> truthy (suffix r)" using a by (simp add: truthy_def)
    show ?thesis using a t n ts by (auto simp: Let_def)
  qed
qed

theorem empty_affix_leaves_accumulated_untested_witness:
  "test_rule word_library (local_variable ''Widget'' int_type)
     ((bare_rule ''plain'')\<lparr>prefix := Some [], rule := Some ''Widget''\<rparr>)
     [(bare_rule ''tee'')\<lparr>prefix := Some ''T_''\<rparr>] [] Map.empty
     (Processor_init \<lparr> rules = [], placeholders = [] \<rparr>)
   = Inr (Some True, Map.empty, Processor_init \<lparr> rules = [], placeholders = [] \<rparr>)"
proof -
  let ?c = "local_variable ''Widget'' int_type"
  let ?r = "(bare_rule ''plain'')\<lparr>prefix := Some [], rule := Some ''Widget''\<rparr>"
  let ?P = "Processor_init \<lparr> rules = [], placeholders = [] \<rparr>"
  have a: "prefix ?r = Some []" by (simp add: bare_rule_def)
  have b: "test_rule word_library ?c ?r [] [] Map.empty ?P = Inr (Some True, Map.empty, ?P)"
    by (simp add: eval_defs)
  show ?thesis
    using a b empty_affix_leaves_accumulated_untested [where r = ?r and L = word_library and c = ?c
        and pre = "[(bare_rule ''tee'')\<lparr>prefix := Some ''T_''\<rparr>]" and suf = "[]"
        and vars = Map.empty and P = ?P, THEN conjunct1]
    by simp
qed

text \<open>
  C8 as the claim words it fails: \<open>tee\<close> asks for the prefix \<open>T_\<close>, which \<open>Widget\<close> lacks,
  and \<open>plain\<close> has an empty prefix; the test of \<open>plain\<close> does not test the accumulated
  prefix, nothing is printed and the declaration passes.
\<close>

theorem empty_prefix_skips_test_counterexample:
  "re_search word_library ''^T_'' ''Widget'' = None
   \<and> process_node word_library (local_variable ''Widget'' int_type)
       (Processor_init \<lparr> rules = [(bare_rule ''tee'')\<lparr>prefix := Some ''T_''\<rparr>,
                                   (bare_rule ''plain'')\<lparr>prefix := Some [], rule := Some ''Widget''\<rparr>],
                         placeholders = [] \<rparr>)
     = Inr (True,
         Processor_init \<lparr> rules = [(bare_rule ''tee'')\<lparr>prefix := Some ''T_''\<rparr>,
                                   (bare_rule ''plain'')\<lparr>prefix := Some [], rule := Some ''Widget''\<rparr>],
                           placeholders = [] \<rparr>)"
  by (simp add: eval_defs)


subsection \<open>The verdict after an affix failure\<close>

text \<open>
  After an affix failure has been recorded, \<open>_test_rule\<close> never returns \<open>True\<close>, and it
  returns \<open>False\<close> when the rule has a rule pattern.
\<close>

lemma affix_failure_kept_by_rule:
  assumes "test_affixes L c r pre suf vars P = Inr (ep, es, nm, False, P1)"
    and "test_rule L c r pre suf vars P = Inr (res, vars', P')"
  shows "res \<noteq> Some True \<and> (rule r \<noteq> None \<longrightarrow> res = Some False)"
  using assms
  by (auto simp: test_rule_def match_rule_def split: sum.splits prod.splits option.splits if_splits)

text \<open>
  C1 fails on the code. The rule \<open>widgets\<close> asks for the prefix \<open>T_\<close> and has the
  allow-rule \<open>x\<close>; the variable \<open>Widget\<close> has no ignore comment. The missing prefix is
  printed, the allow-rule does not match and sets \<open>success\<close> to \<open>None\<close>, and the
  declaration passes.
\<close>

theorem affix_failure_lost_after_allow_rule:
  "process_node word_library (local_variable ''Widget'' int_type)
     (Processor_init \<lparr> rules = [(bare_rule ''widgets'')\<lparr>prefix := Some ''T_'', allow_rule := Some ''x''\<rparr>],
                       placeholders = [] \<rparr>)
   = Inr (True,
       (Processor_init \<lparr> rules = [(bare_rule ''widgets'')\<lparr>prefix := Some ''T_'', allow_rule := Some ''x''\<rparr>],
                         placeholders = [] \<rparr>)
       \<lparr>out := [MissingAffix (''main.c'', 3, 5) ''Widget'' True ''T_'' [''widgets'']]\<rparr>)"
  by (simp add: eval_defs)


subsection \<open>The token pre-pass\<close>

lemma first_on_line_cong:
  "tok_extent u = tok_extent tk \<Longrightarrow> first_on_line tu u = first_on_line tu tk"
  by (simp add: first_on_line_def tok_file_def tok_line_def tok_column_def)

lemma lexed_token_is_first:
  assumes "tk \<in> set (tu_tokens tu)" "line_start_lexed tu" "starts_distinct tu"
  shows "\<exists>u. tokens_at_line_start tu (tok_file tk) (tok_line tk) = [u]
             \<and> (tok_extent u = tok_extent tk) = first_on_line tu tk"
proof -
  from assms(1,2) obtain u where u: "u \<in> set (tu_tokens tu)"
      "tokens_at_line_start tu (tok_file tk) (tok_line tk) = [u]"
      "tok_file u = tok_file tk" "tok_line u = tok_line tk" "first_on_line tu u"
    unfolding line_start_lexed_def list_all_iff list_ex_iff by blast
  have "(tok_extent u = tok_extent tk) = first_on_line tu tk"
  proof
    assume "tok_extent u = tok_extent tk"
    then show "first_on_line tu tk" using first_on_line_cong u(5) by blast
  next
    assume f: "first_on_line tu tk"
    have "\<not> tok_column u < tok_column tk"
      using f u(1,3,4) unfolding first_on_line_def list_all_iff by blast
    moreover have "\<not> tok_column tk < tok_column u"
      using u(5) assms(1) u(3,4) unfolding first_on_line_def list_all_iff by auto
    ultimately have "tok_column u = tok_column tk" by simp
    then show "tok_extent u = tok_extent tk"
      using assms(1,3) u(1,3,4) unfolding starts_distinct_def list_all_iff by meson
  qed
  then show ?thesis using u(2) by blast
qed

lemma process_token_ignore:
  assumes "tk \<in> set (tu_tokens tu)" "line_start_lexed tu" "starts_distinct tu"
    and "is_ignore_comment tk"
  shows "process_token tu tk P
           = Inr (P\<lparr>ignore_comments :=
                    AList.update (ignore_comment_key tu tk) \<lparr>token = tk, used = False\<rparr>
                      (ignore_comments P)\<rparr>)"
proof -
  from lexed_token_is_first[OF assms(1,2,3)] obtain u where
    u: "tokens_at_line_start tu (tok_file tk) (tok_line tk) = [u]"
       "(tok_extent u = tok_extent tk) = first_on_line tu tk" by blast
  show ?thesis using assms(4) u
    by (auto simp: process_token_def is_ignore_comment_def ignore_comment_key_def Let_def
          split: option.splits prod.splits)
qed

lemma process_token_other:
  "process_token tu tk P = Inr P' \<Longrightarrow> \<not> is_ignore_comment tk \<Longrightarrow>
     ignore_comments P' = ignore_comments P"
  by (auto simp: process_token_def is_ignore_comment_def print_def Let_def
        split: option.splits prod.splits if_splits)

lemma process_tokens_registered:
  assumes "set tks \<subseteq> set (tu_tokens tu)" "line_start_lexed tu" "starts_distinct tu"
    and "process_tokens tu tks P = Inr P'"
  shows "(\<forall>k ic. map_of (ignore_comments P) k = Some ic \<longrightarrow>
            (\<exists>ic'. map_of (ignore_comments P') k = Some ic'))
       \<and> (\<forall>tk\<in>set tks. is_ignore_comment tk \<longrightarrow>
            (\<exists>ic. map_of (ignore_comments P') (ignore_comment_key tu tk) = Some ic))"
  using assms
proof (induction tks arbitrary: P)
  case Nil
  then show ?case by simp
next
  case (Cons tk tks)
  from Cons(5) obtain P1 where p1: "process_token tu tk P = Inr P1"
      and rest: "process_tokens tu tks P1 = Inr P'"
    by (auto split: sum.splits)
  have sub: "set tks \<subseteq> set (tu_tokens tu)" and mem: "tk \<in> set (tu_tokens tu)"
    using Cons(2) by auto
  note ih = Cons(1)[OF sub Cons(3) Cons(4) rest]
  have keep: "\<forall>k ic. map_of (ignore_comments P) k = Some ic \<longrightarrow>
            (\<exists>ic'. map_of (ignore_comments P1) k = Some ic')"
  proof (cases "is_ignore_comment tk")
    case True
    then show ?thesis using p1 process_token_ignore[OF mem Cons(3) Cons(4) True, of P]
      by (auto simp: update_conv')
  next
    case False
    then show ?thesis using process_token_other[OF p1 False] by simp
  qed
  have here: "is_ignore_comment tk \<longrightarrow>
      (\<exists>ic. map_of (ignore_comments P1) (ignore_comment_key tu tk) = Some ic)"
  proof
    assume t: "is_ignore_comment tk"
    show "\<exists>ic. map_of (ignore_comments P1) (ignore_comment_key tu tk) = Some ic"
      using p1 process_token_ignore[OF mem Cons(3) Cons(4) t, of P]
      by (auto simp: update_conv')
  qed
  show ?case using ih keep here by (metis set_ConsD)
qed

text \<open>
  C9. In a translation unit where the tokens at the start of a line are the first token of
  that line, a comment token of the suppression grammar registers an ignore comment under
  the following line when no token precedes it on its line, and under its own line
  otherwise; when the pre-pass ends, that key is registered.
\<close>

theorem ignore_comment_registered:
  assumes "tk \<in> set (tu_tokens tu)" "line_start_lexed tu" "starts_distinct tu"
    and "is_ignore_comment tk"
  shows "process_token tu tk P
           = Inr (P\<lparr>ignore_comments :=
                    AList.update (tok_file tk,
                        if first_on_line tu tk then tok_line tk + 1 else tok_line tk)
                      \<lparr>token = tk, used = False\<rparr> (ignore_comments P)\<rparr>)
       \<and> (\<forall>P'. process_tokens tu (tu_tokens tu) P = Inr P' \<longrightarrow>
            (\<exists>ic. map_of (ignore_comments P')
                     (tok_file tk, if first_on_line tu tk then tok_line tk + 1 else tok_line tk)
                   = Some ic))"
proof
  show "process_token tu tk P
           = Inr (P\<lparr>ignore_comments :=
                    AList.update (tok_file tk,
                        if first_on_line tu tk then tok_line tk + 1 else tok_line tk)
                      \<lparr>token = tk, used = False\<rparr> (ignore_comments P)\<rparr>)"
    using process_token_ignore[OF assms, of P] by (simp add: ignore_comment_key_def)
next
  show "\<forall>P'. process_tokens tu (tu_tokens tu) P = Inr P' \<longrightarrow>
            (\<exists>ic. map_of (ignore_comments P')
                     (tok_file tk, if first_on_line tu tk then tok_line tk + 1 else tok_line tk)
                   = Some ic)"
  proof (intro allI impI)
    fix P' assume "process_tokens tu (tu_tokens tu) P = Inr P'"
    from process_tokens_registered[OF subset_refl assms(2,3) this] assms(1,4)
    show "\<exists>ic. map_of (ignore_comments P')
                     (tok_file tk, if first_on_line tu tk then tok_line tk + 1 else tok_line tk)
                   = Some ic"
      by (simp add: ignore_comment_key_def)
  qed
qed

lemma sample_unit_lexed: "line_start_lexed sample_unit"
  by (simp add: line_start_lexed_def sample_unit_def sample_tokens_def first_on_line_def
      tok_file_def tok_line_def tok_column_def)

lemma sample_unit_distinct: "starts_distinct sample_unit"
  by (simp add: starts_distinct_def sample_unit_def sample_tokens_def
      tok_file_def tok_line_def tok_column_def)

lemma sample_comments:
  "is_ignore_comment (sample_tokens ! 3)" "is_ignore_comment (sample_tokens ! 4)"
  by (simp_all add: is_ignore_comment_def sample_tokens_def match_comment_def after_name_def
      startswith_def isspace_def py_or_def strip_def)

theorem ignore_comment_registered_witness:
  "process_token sample_unit (sample_tokens ! 3) (Processor_init \<lparr>rules = [], placeholders = []\<rparr>)
     = Inr ((Processor_init \<lparr>rules = [], placeholders = []\<rparr>)
             \<lparr>ignore_comments := [((''main.c'', 3), \<lparr>token = sample_tokens ! 3, used = False\<rparr>)]\<rparr>)
   \<and> process_token sample_unit (sample_tokens ! 4) (Processor_init \<lparr>rules = [], placeholders = []\<rparr>)
     = Inr ((Processor_init \<lparr>rules = [], placeholders = []\<rparr>)
             \<lparr>ignore_comments := [((''main.c'', 6), \<lparr>token = sample_tokens ! 4, used = False\<rparr>)]\<rparr>)"
proof -
  have m3: "sample_tokens ! 3 \<in> set (tu_tokens sample_unit)"
    and m4: "sample_tokens ! 4 \<in> set (tu_tokens sample_unit)"
    by (simp_all add: sample_unit_def sample_tokens_def)
  have f3: "\<not> first_on_line sample_unit (sample_tokens ! 3)"
    and f4: "first_on_line sample_unit (sample_tokens ! 4)"
    by (simp_all add: first_on_line_def sample_unit_def sample_tokens_def
        tok_file_def tok_line_def tok_column_def)
  have k: "tok_file (sample_tokens ! 3) = ''main.c''" "tok_line (sample_tokens ! 3) = 3"
    "tok_file (sample_tokens ! 4) = ''main.c''" "tok_line (sample_tokens ! 4) = 5"
    by (simp_all add: sample_tokens_def tok_file_def tok_line_def)
  show ?thesis
    using ignore_comment_registered [OF m3 sample_unit_lexed sample_unit_distinct sample_comments(1),
        of "Processor_init \<lparr>rules = [], placeholders = []\<rparr>", THEN conjunct1]
      ignore_comment_registered [OF m4 sample_unit_lexed sample_unit_distinct sample_comments(2),
        of "Processor_init \<lparr>rules = [], placeholders = []\<rparr>", THEN conjunct1]
      f3 f4 k
    by (simp add: Processor_init_def)
qed


subsection \<open>The structural walk\<close>

lemma process_nodes_append:
  "process_nodes L (xs @ ys) P
     = (case process_nodes L xs P of Inl e \<Rightarrow> Inl e | Inr P' \<Rightarrow> process_nodes L ys P')"
  by (induction xs arbitrary: P) (auto split: sum.splits prod.splits)

lemma process_cursor_nodes:
  "process_cursor L t P = process_nodes L (evaluated t) P"
  "process_children L ts P = process_nodes L (concat (map evaluated ts)) P"
proof (induction L t P and L ts P rule: process_cursor_process_children.induct)
  case (1 L cursor children P)
  then show ?case
    by (auto simp: Let_def split: sum.splits prod.splits)
next
  case (2 L P)
  then show ?case by simp
next
  case (3 L child children P)
  then show ?case
    by (auto simp: process_nodes_append split: sum.splits)
qed

lemma skips_children_iff:
  "skips_children c
     = (kind c = TYPEDEF_DECL
        \<and> (\<exists>s. underlying_canonical c = Plain RECORD s \<or> underlying_canonical c = Plain ENUM s))"
  by (cases "underlying_canonical c") (auto simp: skips_children_def)

lemma typedef_of_record_or_enum_not_entered:
  assumes "kind c = TYPEDEF_DECL"
    and "underlying_canonical c = Plain RECORD s \<or> underlying_canonical c = Plain ENUM s"
  shows "process_cursor L (Node c cs) P = process_nodes L [c] P"
  using assms process_cursor_nodes(1)[of L "Node c cs" P] by (auto simp: skips_children_def)

lemma typedef_of_pointer_entered:
  assumes "underlying_canonical c = Pointer s t"
  shows "process_cursor L (Node c cs) P = process_nodes L (c # concat (map evaluated cs)) P"
  using assms process_cursor_nodes(1)[of L "Node c cs" P] by (simp add: skips_children_def)

lemma fooptr_kind:
  "get_config_kind (main_cursor TYPEDEF_DECL ''FooPtr''
             (Pointer ''struct (unnamed) *'' (Plain RECORD ''struct (unnamed)'')) 28)
     = Inr (Some ''struct_typedef'', Some ''file'', [])"
  by (simp add: get_config_kind_def main_cursor_def startswith_def)

lemma no_alias_member: "expand_from 0 [''struct_member''] = [''struct_member'']"
  by (simp add: expand_from.simps KIND_EXPANSION_def)

text \<open>
  C10 fails on the code. In the tree of \<open>typedef struct { int x; } *FooPtr;\<close> the typedef
  is classified as a typedef of a struct, because \<open>_get_config_kind\<close> unwraps the pointer,
  but \<open>_process\<close> tests the canonical type as it is, finds a pointer and goes into the
  children of the typedef: the member \<open>x\<close> is evaluated twice, once below the struct
  declaration and once below the typedef, and its failure is printed twice.
\<close>

theorem member_below_pointer_typedef_evaluated_twice:
  "get_config_kind (main_cursor TYPEDEF_DECL ''FooPtr''
             (Pointer ''struct (unnamed) *'' (Plain RECORD ''struct (unnamed)'')) 28)
     = Inr (Some ''struct_typedef'', Some ''file'', [])
   \<and> \<not> skips_children (main_cursor TYPEDEF_DECL ''FooPtr''
             (Pointer ''struct (unnamed) *'' (Plain RECORD ''struct (unnamed)'')) 28)
   \<and> count_list (evaluated unit_FooPtr) unnamed_member = 2
   \<and> process_cursor word_library unit_FooPtr (Processor_init member_rules)
     = Inr \<lparr> rule_set = member_rules, ignore_comments = [], has_failures = True,
             out = [FailsRule (''main.c'', 1, 22) ''x'' ''members'' ''m_x'' None None,
                    FailsRule (''main.c'', 1, 22) ''x'' ''members'' ''m_x'' None None] \<rparr>"
proof (intro conjI)
  show "get_config_kind (main_cursor TYPEDEF_DECL ''FooPtr''
             (Pointer ''struct (unnamed) *'' (Plain RECORD ''struct (unnamed)'')) 28)
     = Inr (Some ''struct_typedef'', Some ''file'', [])"
    by (rule fooptr_kind)
  show "\<not> skips_children (main_cursor TYPEDEF_DECL ''FooPtr''
             (Pointer ''struct (unnamed) *'' (Plain RECORD ''struct (unnamed)'')) 28)"
    by (simp add: skips_children_def main_cursor_def)
  have sk: "\<And>k n t col. skips_children (main_cursor k n t col)
      = (k = TYPEDEF_DECL \<and> (case t of Pointer s u \<Rightarrow> False | Plain tk s \<Rightarrow> tk \<in> set [RECORD, ENUM]))"
    by (simp add: skips_children_def main_cursor_def)
  have skm: "\<not> skips_children unnamed_member"
    by (simp add: skips_children_def unnamed_member_def main_cursor_def)
  have ev: "evaluated unit_FooPtr
      = [main_cursor OTHER_DECL ''main.c'' (Plain OTHER_TYPE []) 1,
         main_cursor STRUCT_DECL [] (Plain RECORD ''struct (unnamed)'') 9,
         unnamed_member,
         main_cursor TYPEDEF_DECL ''FooPtr''
           (Pointer ''struct (unnamed) *'' (Plain RECORD ''struct (unnamed)'')) 28,
         main_cursor STRUCT_DECL [] (Plain RECORD ''struct (unnamed)'') 9,
         unnamed_member]"
    by (simp add: unit_FooPtr_def struct_unnamed_def typedef_FooPtr_def sk skm)
  have ne: "unnamed_member \<noteq> main_cursor OTHER_DECL ''main.c'' (Plain OTHER_TYPE []) 1"
    "unnamed_member \<noteq> main_cursor STRUCT_DECL [] (Plain RECORD ''struct (unnamed)'') 9"
    "unnamed_member \<noteq> main_cursor TYPEDEF_DECL ''FooPtr''
           (Pointer ''struct (unnamed) *'' (Plain RECORD ''struct (unnamed)'')) 28"
    by (simp_all add: unnamed_member_def main_cursor_def)
  show "count_list (evaluated unit_FooPtr) unnamed_member = 2"
    using ne by (simp add: ev)
  have root: "\<And>col P. process_node word_library
        (main_cursor OTHER_DECL ''main.c'' (Plain OTHER_TYPE []) col) P = Inr (True, P)"
    by (simp add: process_node_def main_cursor_def get_config_kind_def)
  have str: "\<And>P. process_node word_library
        (main_cursor STRUCT_DECL [] (Plain RECORD ''struct (unnamed)'') 9) P = Inr (True, P)"
    by (simp add: process_node_def main_cursor_def get_config_kind_def tag_kind_def
        is_struct_enum_union_unnamed_def index_of_def upt_rec)
  have mem: "\<And>hf ms. process_node word_library unnamed_member
        \<lparr> rule_set = member_rules, ignore_comments = [], has_failures = hf, out = ms \<rparr>
      = Inr (False, \<lparr> rule_set = member_rules, ignore_comments = [], has_failures = hf,
             out = ms @ [FailsRule (''main.c'', 1, 22) ''x'' ''members'' ''m_x'' None None] \<rparr>)"
    by (simp add: eval_defs unnamed_member_def main_cursor_def member_rules_def no_alias_member)
  have td: "\<And>hf ms. process_node word_library
        (main_cursor TYPEDEF_DECL ''FooPtr''
             (Pointer ''struct (unnamed) *'' (Plain RECORD ''struct (unnamed)'')) 28)
        \<lparr> rule_set = member_rules, ignore_comments = [], has_failures = hf, out = ms \<rparr>
      = Inr (True, \<lparr> rule_set = member_rules, ignore_comments = [], has_failures = hf, out = ms \<rparr>)"
    by (simp add: process_node_def fooptr_kind)
       (simp add: eval_defs main_cursor_def member_rules_def no_alias_member)
  show "process_cursor word_library unit_FooPtr (Processor_init member_rules)
     = Inr \<lparr> rule_set = member_rules, ignore_comments = [], has_failures = True,
             out = [FailsRule (''main.c'', 1, 22) ''x'' ''members'' ''m_x'' None None,
                    FailsRule (''main.c'', 1, 22) ''x'' ''members'' ''m_x'' None None] \<rparr>"
    by (simp add: process_cursor_nodes(1) ev Processor_init_def root str mem td)
qed

end
